theory Spec2Isabelle
  imports Complex_Main
begin

section \<open>Data model\<close>

text \<open>
  The development embeds \<^verbatim>\<open>src/thor/trace_route_action.cc\<close>: the strategy
  dispatcher \<^verbatim>\<open>trace_route\<close>, the two path formers \<^verbatim>\<open>route_match\<close> and
  \<^verbatim>\<open>map_match\<close>, and the two assemblers \<^verbatim>\<open>build_trace\<close> and
  \<^verbatim>\<open>build_route\<close>.

  Floating point values (\<^verbatim>\<open>float\<close>) are kept in a type variable \<open>'f\<close>. The code
  only copies them, writes the constants \<^verbatim>\<open>1.f\<close> and \<^verbatim>\<open>1.0f\<close> and divides one
  score by another, so the operations \<open>1\<close> and \<open>/\<close> of the type are all that is
  used, and no law of arithmetic is assumed of them.

  Counters (\<^verbatim>\<open>size_t edge_index\<close>, \<^verbatim>\<open>int way_point_index\<close>,
  \<^verbatim>\<open>int route_index\<close>) count segments and paths of one request and are modelled
  by \<open>nat\<close>; indices stored in a segment are \<^verbatim>\<open>int\<close> and may be negative, so
  they are \<open>int\<close>.
\<close>

text \<open>
  Modelled from the spec: \<^verbatim>\<open>baldr::GraphId\<close> is declared in
  \<^verbatim>\<open>baldr/graphid.h\<close>. The spec describes it as an edge identifier that may be
  invalid; a default-constructed identifier (\<^verbatim>\<open>baldr::GraphId last_id;\<close>) is the
  invalid one.
\<close>

datatype GraphId = kInvalidGraphId | GraphId nat

definition Is_Valid :: "GraphId \<Rightarrow> bool" where
  "Is_Valid g = (g \<noteq> kInvalidGraphId)"

text \<open>\<^verbatim>\<open>midgard::PointLL\<close>: a pair, \<^verbatim>\<open>first\<close> the longitude and \<^verbatim>\<open>second\<close>
  the latitude.\<close>

type_synonym 'f PointLL = "'f \<times> 'f"

text \<open>
  Modelled from the spec: \<^verbatim>\<open>meili::MatchResult\<close> (declared in
  \<^verbatim>\<open>meili/match_result.h\<close>), with the fields this file reads or writes. The
  optional matcher state is \<open>None\<close> when \<^verbatim>\<open>HasState()\<close> is false.
\<close>

record 'f MatchResult =
  lnglat :: "'f PointLL"
  distance_from :: 'f
  edgeid :: GraphId
  distance_along :: 'f
  stateid :: "nat option"
  edge_index :: nat
  begins_discontinuity :: bool
  ends_discontinuity :: bool

text \<open>
  Modelled from the spec: \<^verbatim>\<open>meili::EdgeSegment\<close>, a run of trace points on one
  edge; a match index of \<open>-1\<close> says that the segment has no match point at that end.
\<close>

record EdgeSegment =
  edgeid :: GraphId
  first_match_idx :: int
  last_match_idx :: int
  discontinuity :: bool

text \<open>
  Modelled from the spec: \<^verbatim>\<open>thor::PathInfo\<close>, one entry of an edge-cost sequence:
  the edge and the cost elapsed at its end.
\<close>

record 'f PathInfo =
  edgeid :: GraphId
  elapsed_cost :: 'f

text \<open>A path: \<^verbatim>\<open>std::pair<std::vector<PathInfo>, std::vector<const EdgeSegment*>>\<close>.\<close>

type_synonym 'f path = "'f PathInfo list \<times> EdgeSegment list"

text \<open>One interpretation returned by the matcher (\<^verbatim>\<open>result.results\<close>,
  \<^verbatim>\<open>result.segments\<close>, \<^verbatim>\<open>result.score\<close>).\<close>

record 'f MatchResults =
  results :: "'f MatchResult list"
  segments :: "EdgeSegment list"
  score :: 'f

text \<open>
  Modelled from the spec: \<^verbatim>\<open>RouteDiscontinuity\<close>, one half of an entry of the
  discontinuity map: \<open>{present, coordinate, distance_along}\<close>.
\<close>

record 'f RouteDiscontinuity =
  present :: bool
  coordinate :: "'f PointLL"
  distance_along :: 'f

type_synonym 'f discontinuities =
  "nat \<rightharpoonup> 'f RouteDiscontinuity \<times> 'f RouteDiscontinuity"

text \<open>The protobuf messages \<^verbatim>\<open>LatLng\<close>, \<^verbatim>\<open>Location::PathEdge\<close> and
  \<^verbatim>\<open>Location\<close>, with the fields this file touches; an unset field is \<open>None\<close>.\<close>

record 'f LatLng =
  lat :: 'f
  lng :: 'f

record 'f PathEdge =
  graph_id :: "GraphId option"
  percent_along :: "'f option"
  ll :: "'f LatLng option"
  distance :: "'f option"
  names :: "string list"

definition PathEdge_default :: "'f PathEdge" where
  "PathEdge_default =
     \<lparr>graph_id = None, percent_along = None, ll = None, distance = None, names = []\<rparr>"

record 'f Location =
  path_edges :: "'f PathEdge list"
  date_time :: "string option"
  route_index :: "nat option"
  shape_index :: "nat option"

datatype ShapeMatch = edge_walk | map_snap | walk_or_snap

text \<open>\<^verbatim>\<open>Options::Action\<close> and \<^verbatim>\<open>Options::Format\<close>: the values the code compares
  with, and one constructor for all the others.\<close>

datatype Action = Options_trace_route | Options_trace_attributes | Options_other_action

datatype Format = Options_osrm | Options_other_format

record 'f Options =
  shape_match :: ShapeMatch
  action :: Action
  format :: Format
  best_paths :: int
  do_not_track :: bool
  shape :: "'f Location list"
  locations :: "'f Location list"

text \<open>
  Modelled from the spec: the leg geometry builder \<^verbatim>\<open>TripLegBuilder::Build\<close> is an
  external collaborator. A leg is represented by what the assembler hands to the
  builder: the edge sequence, the origin and destination locations as they are at the
  call, and the discontinuity map when one is passed.
\<close>

record 'f TripLeg =
  leg_path :: "'f PathInfo list"
  leg_origin :: "'f Location"
  leg_destination :: "'f Location"
  leg_route_discontinuities :: "'f discontinuities option"

definition TripLegBuilder_Build ::
  "'f PathInfo list \<Rightarrow> 'f Location \<Rightarrow> 'f Location \<Rightarrow> 'f discontinuities option \<Rightarrow> 'f TripLeg" where
  "TripLegBuilder_Build edges origin destination discontinuities =
     \<lparr>leg_path = edges, leg_origin = origin, leg_destination = destination,
      leg_route_discontinuities = discontinuities\<rparr>"

text \<open>A route is its sequence of legs.\<close>

type_synonym 'f TripRoute = "'f TripLeg list"

text \<open>What \<^verbatim>\<open>build_route\<close> sends to \<^verbatim>\<open>std::cout\<close>, item by item.\<close>

datatype 'f cout_item =
  cout_string string
| cout_PathInfo "'f PathInfo"
| cout_EdgeSegment EdgeSegment
| endl

text \<open>
  Modelled from the spec: a trace point (\<^verbatim>\<open>meili::Measurement\<close>): coordinate,
  optional timestamp, accuracy radius.
\<close>

record 'f Measurement =
  measurement_lnglat :: "'f PointLL"
  epoch_time :: "'f option"
  search_radius :: 'f

text \<open>
  The state the functions work on: the request (\<^verbatim>\<open>Api\<close>: its options and the
  routes of its trip), the worker's \<^verbatim>\<open>trace\<close>, and what the process has written:
  standard output, the warning log, and the legs given to \<^verbatim>\<open>log_admin\<close>.
\<close>

record 'f state =
  options :: "'f Options"
  trip :: "'f TripRoute list"
  trace :: "'f Measurement list"
  cout :: "'f cout_item list"
  log_warn :: "string list"
  log_admin :: "'f TripLeg list"

text \<open>
  The external collaborators and the declarations that are not part of this file, as
  functions of the arguments they read: the edge-walk pathfinder (\<open>None\<close> when it
  returns \<^verbatim>\<open>false\<close>), the matcher, path repair, the names of an edge, the number of
  candidate edges of a matcher state, the name of a \<^verbatim>\<open>ShapeMatch\<close> value, the
  default-constructed coordinate (\<^verbatim>\<open>{}\<close>), and the default-constructed
  \<^verbatim>\<open>RouteDiscontinuity\<close> that indexing the discontinuity map with a new key
  creates.
\<close>

record 'f external =
  RouteMatcher_FormPath :: "'f Measurement list \<Rightarrow> 'f Options \<Rightarrow> 'f PathInfo list option"
  OfflineMatch :: "'f Measurement list \<Rightarrow> int \<Rightarrow> 'f MatchResults list"
  MapMatcher_FormPath ::
    "'f MatchResult list \<Rightarrow> EdgeSegment list \<Rightarrow> 'f Options \<Rightarrow> 'f path list"
  GetNames :: "GraphId \<Rightarrow> string list"
  candidate_edges_size :: "nat \<Rightarrow> nat"
  ShapeMatch_Enum_Name :: "ShapeMatch \<Rightarrow> string"
  PointLL_default :: "'f PointLL"
  RouteDiscontinuity_default :: "'f RouteDiscontinuity"

text \<open>
  Errors. \<open>std_exception\<close> is \<^verbatim>\<open>throw std::exception{}\<close>;
  \<open>valhalla_exception_t code message\<close> is \<^verbatim>\<open>throw valhalla_exception_t{code, message}\<close>.
  The code indexes vectors and repeated fields without a check and calls
  \<^verbatim>\<open>front()\<close> and \<^verbatim>\<open>back()\<close> on vectors that may be empty; where C++ leaves the
  behaviour undefined the model stops with \<open>undefined_behaviour\<close>, which no
  \<^verbatim>\<open>catch\<close> handles.
\<close>

datatype error =
  std_exception
| valhalla_exception_t nat "string option"
| undefined_behaviour

section \<open>add\_path\_edge\<close>

definition add_path_edge :: "'f Location \<Rightarrow> 'f MatchResult \<Rightarrow> 'f Location" where
  "add_path_edge l m =
     l\<lparr>path_edges :=
         [\<lparr>graph_id = Some (MatchResult.edgeid m),
           percent_along = Some (MatchResult.distance_along m),
           ll = Some \<lparr>lat = snd (lnglat m), lng = fst (lnglat m)\<rparr>,
           distance = Some (distance_from m),
           names = []\<rparr>]\<rparr>"

section \<open>build\_trace\<close>

text \<open>The local variables of \<^verbatim>\<open>build_trace\<close> that its first loop updates. The two
  pointers into \<^verbatim>\<open>match_results\<close> are indices.\<close>

record 'f build_trace_vars =
  match_results :: "'f MatchResult list"
  route_discontinuities :: "'f discontinuities"
  last_id :: GraphId
  edge_index :: nat
  origin_match :: "nat option"
  dest_match :: "nat option"

text \<open>\<^verbatim>\<open>match_results[idx].edge_index = edge_index\<close>\<close>

definition set_edge_index :: "int \<Rightarrow> 'f build_trace_vars \<Rightarrow> error + 'f build_trace_vars" where
  "set_edge_index idx v =
     (if 0 \<le> idx \<and> nat idx < length (match_results v)
      then Inr (v\<lparr>match_results :=
                  (match_results v)[nat idx :=
                     (match_results v ! nat idx)\<lparr>MatchResult.edge_index := edge_index v\<rparr>]\<rparr>)
      else Inl undefined_behaviour)"

text \<open>The body of the loop over the segments of a path.\<close>

definition build_trace_segment ::
  "EdgeSegment \<Rightarrow> 'f build_trace_vars \<Rightarrow> error + 'f build_trace_vars" where
  "build_trace_segment segment v =
     (case (if first_match_idx segment \<ge> 0
            then (case set_edge_index (first_match_idx segment) v of
                    Inl e \<Rightarrow> Inl e
                  | Inr v1 \<Rightarrow>
                      Inr (if origin_match v1 = None
                           then v1\<lparr>origin_match := Some (nat (first_match_idx segment))\<rparr>
                           else v1))
            else Inr v) of
        Inl e \<Rightarrow> Inl e
      | Inr v1 \<Rightarrow>
          (case (if last_match_idx segment \<ge> 0
                 then (case set_edge_index (last_match_idx segment) v1 of
                         Inl e \<Rightarrow> Inl e
                       | Inr v2 \<Rightarrow>
                           Inr (if dest_match v2 = None
                                then v2\<lparr>dest_match := Some (nat (last_match_idx segment))\<rparr>
                                else v2))
                 else Inr v1) of
             Inl e \<Rightarrow> Inl e
           | Inr v2 \<Rightarrow>
               Inr (v2\<lparr>edge_index :=
                          (if last_id v2 \<noteq> EdgeSegment.edgeid segment
                           then edge_index v2 + 1 else edge_index v2),
                        last_id := EdgeSegment.edgeid segment\<rparr>)))"

fun build_trace_segments ::
  "EdgeSegment list \<Rightarrow> 'f build_trace_vars \<Rightarrow> error + 'f build_trace_vars" where
  "build_trace_segments [] v = Inr v"
| "build_trace_segments (segment # rest) v =
     (case build_trace_segment segment v of
        Inl e \<Rightarrow> Inl e
      | Inr v1 \<Rightarrow> build_trace_segments rest v1)"

text \<open>\<^verbatim>\<open>match_results[i]\<close> for an \<^verbatim>\<open>int\<close> index.\<close>

definition match_at :: "'f MatchResult list \<Rightarrow> int \<Rightarrow> error + 'f MatchResult" where
  "match_at ms i =
     (if 0 \<le> i \<and> nat i < length ms then Inr (ms ! nat i) else Inl undefined_behaviour)"

text \<open>"handle the end of a discontinuity": the whole entry is assigned.\<close>

definition handle_discontinuity_end ::
  "'f::one external \<Rightarrow> 'f MatchResult \<Rightarrow> 'f discontinuities \<Rightarrow> 'f discontinuities" where
  "handle_discontinuity_end ext first_match rd =
     (if ends_discontinuity first_match
      then rd(MatchResult.edge_index first_match \<mapsto>
                (\<lparr>present = True, coordinate = lnglat first_match,
                  distance_along = MatchResult.distance_along first_match\<rparr>,
                 \<lparr>present = False, coordinate = PointLL_default ext, distance_along = 1\<rparr>))
      else rd)"

text \<open>"handle the start of a discontinuity": the map is indexed, which creates a
  default entry when the key is new, and only \<^verbatim>\<open>.second\<close> is assigned.\<close>

definition handle_discontinuity_start ::
  "'f external \<Rightarrow> 'f MatchResult \<Rightarrow> 'f discontinuities \<Rightarrow> 'f discontinuities" where
  "handle_discontinuity_start ext last_match rd =
     (if begins_discontinuity last_match
      then let entry = (case rd (MatchResult.edge_index last_match) of
                          None \<Rightarrow> (RouteDiscontinuity_default ext, RouteDiscontinuity_default ext)
                        | Some p \<Rightarrow> p)
           in rd(MatchResult.edge_index last_match \<mapsto>
                   (fst entry,
                    \<lparr>present = True, coordinate = lnglat last_match,
                     distance_along = MatchResult.distance_along last_match\<rparr>))
      else rd)"

text \<open>The body of the loop over the paths.\<close>

definition build_trace_path ::
  "'f::one external \<Rightarrow> 'f path \<Rightarrow> 'f build_trace_vars \<Rightarrow> error + 'f build_trace_vars" where
  "build_trace_path ext path v =
     (case build_trace_segments (snd path) v of
        Inl e \<Rightarrow> Inl e
      | Inr v1 \<Rightarrow>
          (if snd path = [] then Inl undefined_behaviour
           else
             (case match_at (match_results v1) (first_match_idx (hd (snd path))) of
                Inl e \<Rightarrow> Inl e
              | Inr first_match \<Rightarrow>
                  (case match_at (match_results v1) (last_match_idx (last (snd path))) of
                     Inl e \<Rightarrow> Inl e
                   | Inr last_match \<Rightarrow>
                       Inr (v1\<lparr>route_discontinuities :=
                                  handle_discontinuity_start ext last_match
                                    (handle_discontinuity_end ext first_match
                                       (route_discontinuities v1))\<rparr>)))))"

fun build_trace_paths ::
  "'f::one external \<Rightarrow> 'f path list \<Rightarrow> 'f build_trace_vars \<Rightarrow> error + 'f build_trace_vars" where
  "build_trace_paths ext [] v = Inr v"
| "build_trace_paths ext (path # rest) v =
     (case build_trace_path ext path v of
        Inl e \<Rightarrow> Inl e
      | Inr v1 \<Rightarrow> build_trace_paths ext rest v1)"

text \<open>"smash all the path edges into a single vector": the second loop over the
  paths; \<open>edges\<close> is the vector \<^verbatim>\<open>path_edges\<close>.\<close>

fun smash_path_edges :: "'f path list \<Rightarrow> 'f PathInfo list \<Rightarrow> error + 'f PathInfo list" where
  "smash_path_edges [] edges = Inr edges"
| "smash_path_edges (path # rest) edges =
     (if edges \<noteq> [] \<and> fst path = [] then Inl undefined_behaviour
      else
        let merge_last_edge =
              (edges \<noteq> [] \<and>
               PathInfo.edgeid (last edges) = PathInfo.edgeid (hd (fst path)))
        in smash_path_edges rest
             (edges @ drop (if merge_last_edge then 1 else 0) (fst path)))"

text \<open>\<^verbatim>\<open>options.mutable_shape(i)\<close> followed by a change of that location.\<close>

definition update_shape ::
  "nat \<Rightarrow> ('f Location \<Rightarrow> 'f Location) \<Rightarrow> 'f state \<Rightarrow> 'f state" where
  "update_shape i f st =
     st\<lparr>options := (options st)\<lparr>shape := (shape (options st))[i := f (shape (options st) ! i)]\<rparr>\<rparr>"

definition build_trace_vars_init :: "'f MatchResult list \<Rightarrow> 'f build_trace_vars" where
  "build_trace_vars_init ms =
     \<lparr>match_results = ms, route_discontinuities = Map.empty, last_id = kInvalidGraphId,
      edge_index = 0, origin_match = None, dest_match = None\<rparr>"

text \<open>
  \<^verbatim>\<open>build_trace\<close>. The result is the request after the call, and either the error or
  the match results as the call leaves them.
\<close>

definition build_trace ::
  "'f::one external \<Rightarrow> 'f path list \<Rightarrow> 'f MatchResult list \<Rightarrow> 'f state \<Rightarrow>
     'f state \<times> (error + 'f MatchResult list)" where
  "build_trace ext paths ms st =
     (case build_trace_paths ext paths (build_trace_vars_init ms) of
        Inl e \<Rightarrow> (st, Inl e)
      | Inr v \<Rightarrow>
          (case (origin_match v, dest_match v) of
             (Some origin_idx, Some dest_idx) \<Rightarrow>
               (if \<not> (origin_idx < length (shape (options st)) \<and>
                       dest_idx < length (shape (options st)))
                then (st, Inl undefined_behaviour)
                else
                  let st1 = update_shape origin_idx
                              (\<lambda>l. add_path_edge l (match_results v ! origin_idx)) st;
                      st2 = update_shape dest_idx
                              (\<lambda>l. add_path_edge l (match_results v ! dest_idx)) st1
                  in (case smash_path_edges paths [] of
                        Inl e \<Rightarrow> (st2, Inl e)
                      | Inr edges \<Rightarrow>
                          (st2\<lparr>trip := trip st2 @
                                 [[TripLegBuilder_Build edges
                                     (shape (options st2) ! origin_idx)
                                     (shape (options st2) ! dest_idx)
                                     (Some (route_discontinuities v))]]\<rparr>,
                           Inr (match_results v))))
           | _ \<Rightarrow> (st, Inl (valhalla_exception_t 442 None))))"

section \<open>build\_route\<close>

text \<open>The local variables of \<^verbatim>\<open>build_route\<close>. The pointer \<^verbatim>\<open>route\<close> is the
  position of the open route in the trip, \<open>None\<close> for \<^verbatim>\<open>nullptr\<close>.\<close>

record build_route_vars =
  way_point_index :: nat
  route :: "nat option"
  route_index :: nat

text \<open>What one iteration writes to standard output.\<close>

definition cout_path :: "'f path \<Rightarrow> 'f cout_item list" where
  "cout_path path =
     [cout_string ''Path:'', endl] @
     concat (map (\<lambda>p. [cout_PathInfo p, endl]) (fst path)) @
     [cout_string ''EdgeSegments:'', endl] @
     concat (map (\<lambda>s. [cout_EdgeSegment s, endl]) (snd path)) @
     [endl]"

text \<open>\<^verbatim>\<open>for (int i = origin_match_idx; i <= dest_match_idx; ++i)\<close>, over the list of
  the values of \<^verbatim>\<open>i\<close>; 4294967295 is \<^verbatim>\<open>std::numeric_limits<uint32_t>::max()\<close>.\<close>

fun set_route_index_loop ::
  "int list \<Rightarrow> nat \<Rightarrow> 'f Location list \<Rightarrow> error + 'f Location list" where
  "set_route_index_loop [] r sh = Inr sh"
| "set_route_index_loop (i # rest) r sh =
     (if 0 \<le> i \<and> nat i < length sh
      then set_route_index_loop rest r
             (sh[nat i := (sh ! nat i)\<lparr>Location.route_index := Some r,
                                       shape_index := Some 4294967295\<rparr>])
      else Inl undefined_behaviour)"

text \<open>
  The part of the loop body that works on the \<^verbatim>\<open>shape\<close> locations \<open>sh0\<close> and
  calls the leg builder: \<open>r\<close> is \<^verbatim>\<open>route_index\<close> and \<open>w\<close> is
  \<^verbatim>\<open>way_point_index\<close>. It returns the locations and the leg built.
\<close>

definition build_route_leg ::
  "'f MatchResult list \<Rightarrow> 'f path \<Rightarrow> nat \<Rightarrow> nat \<Rightarrow> 'f Location list \<Rightarrow>
     error + 'f Location list \<times> 'f TripLeg" where
  "build_route_leg ms path r w sh0 =
     (if snd path = [] then Inl undefined_behaviour
      else
        let origin_match_idx = first_match_idx (hd (snd path));
            dest_match_idx = last_match_idx (last (snd path))
        in (case set_route_index_loop [origin_match_idx..dest_match_idx] r sh0 of
              Inl e \<Rightarrow> Inl e
            | Inr sh \<Rightarrow>
                (if \<not> (0 \<le> origin_match_idx \<and> nat origin_match_idx < length sh \<and>
                        0 \<le> dest_match_idx \<and> nat dest_match_idx < length sh)
                 then Inl undefined_behaviour
                 else
                   let sh1 = sh[nat origin_match_idx :=
                                  (sh ! nat origin_match_idx)\<lparr>shape_index := Some w\<rparr>];
                       sh2 = sh1[nat dest_match_idx :=
                                   (sh1 ! nat dest_match_idx)\<lparr>shape_index := Some (w + 1)\<rparr>]
                   in (case match_at ms origin_match_idx of
                         Inl e \<Rightarrow> Inl e
                       | Inr origin_m \<Rightarrow>
                           (case match_at ms dest_match_idx of
                              Inl e \<Rightarrow> Inl e
                            | Inr dest_m \<Rightarrow>
                                let sh3 = sh2[nat origin_match_idx :=
                                            add_path_edge (sh2 ! nat origin_match_idx) origin_m];
                                    sh4 = sh3[nat dest_match_idx :=
                                            add_path_edge (sh3 ! nat dest_match_idx) dest_m]
                                in Inr (sh4,
                                        TripLegBuilder_Build (fst path)
                                          (sh4 ! nat origin_match_idx)
                                          (sh4 ! nat dest_match_idx) None))))))"

text \<open>The body of the loop over the paths: the output, the opening of a route, the
  locations and the leg, which is appended to the open route, and the closing of the
  route after a discontinuity.\<close>

definition build_route_path ::
  "'f MatchResult list \<Rightarrow> 'f path \<Rightarrow> 'f state \<times> build_route_vars \<Rightarrow>
     error + 'f state \<times> build_route_vars" where
  "build_route_path ms path sv =
     (let st1 = (fst sv)\<lparr>cout := cout (fst sv) @ cout_path path\<rparr>;
          (st2, r, w) =
             (case route (snd sv) of
                None \<Rightarrow> (st1\<lparr>trip := trip st1 @ [[]]\<rparr>, length (trip st1), 0)
              | Some r \<Rightarrow> (st1, r, way_point_index (snd sv)))
      in (case build_route_leg ms path (route_index (snd sv)) w (shape (options st2)) of
            Inl e \<Rightarrow> Inl e
          | Inr (sh, leg) \<Rightarrow>
              Inr (st2\<lparr>options := (options st2)\<lparr>shape := sh\<rparr>,
                       trip := (trip st2)[r := trip st2 ! r @ [leg]]\<rparr>,
                   if discontinuity (last (snd path))
                   then \<lparr>way_point_index = w + 1, route = None,
                         route_index = route_index (snd sv) + 1\<rparr>
                   else \<lparr>way_point_index = w + 1, route = Some r,
                         route_index = route_index (snd sv)\<rparr>)))"

fun build_route_paths ::
  "'f MatchResult list \<Rightarrow> 'f path list \<Rightarrow> 'f state \<times> build_route_vars \<Rightarrow>
     error + 'f state \<times> build_route_vars" where
  "build_route_paths ms [] sv = Inr sv"
| "build_route_paths ms (path # rest) sv =
     (case build_route_path ms path sv of
        Inl e \<Rightarrow> Inl e
      | Inr sv1 \<Rightarrow> build_route_paths ms rest sv1)"

definition build_route_vars_init :: build_route_vars where
  "build_route_vars_init = \<lparr>way_point_index = 0, route = None, route_index = 0\<rparr>"

text \<open>\<^verbatim>\<open>build_route\<close>. The match results are \<^verbatim>\<open>const\<close>, so the function returns
  the request only.\<close>

definition build_route ::
  "'f path list \<Rightarrow> 'f MatchResult list \<Rightarrow> 'f state \<Rightarrow> 'f state \<times> (error + unit)" where
  "build_route paths ms st =
     (case build_route_paths ms paths (st, build_route_vars_init) of
        Inl e \<Rightarrow> (st, Inl e)
      | Inr sv \<Rightarrow> (fst sv, Inr ()))"

text \<open>For stating where the leg of a path ends up: a path closes its route when its
  trailing segment is flagged; \<open>routes_closed ps\<close> counts the paths of \<open>ps\<close> that do, and
  \<open>legs_since_open ps\<close> counts the paths of \<open>ps\<close> after the last one that does.\<close>

abbreviation closes_route :: "'f path \<Rightarrow> bool" where
  "closes_route path \<equiv> discontinuity (last (snd path))"

abbreviation routes_closed :: "'f path list \<Rightarrow> nat" where
  "routes_closed ps \<equiv> length (filter closes_route ps)"

abbreviation legs_since_open :: "'f path list \<Rightarrow> nat" where
  "legs_since_open ps \<equiv> length (takeWhile (\<lambda>q. \<not> closes_route q) (rev ps))"

section \<open>route\_match\<close>

definition route_match :: "'f external \<Rightarrow> 'f state \<Rightarrow> 'f state \<times> (error + unit)" where
  "route_match ext st =
     (case RouteMatcher_FormPath ext (trace st) (options st) of
        None \<Rightarrow> (st, Inl std_exception)
      | Some path \<Rightarrow>
          (if shape (options st) = [] then (st, Inl undefined_behaviour)
           else
             (case (case date_time (shape (options st) ! 0) of
                      None \<Rightarrow> Inr st
                    | Some dt \<Rightarrow>
                        (if locations (options st) = [] then Inl undefined_behaviour
                         else Inr (st\<lparr>options := (options st)\<lparr>locations :=
                                       (locations (options st))[0 :=
                                          (locations (options st) ! 0)\<lparr>date_time := Some dt\<rparr>]\<rparr>\<rparr>))) of
                Inl e \<Rightarrow> (st, Inl e)
              | Inr st1 \<Rightarrow>
                  (if locations (options st1) = [] then (st1, Inl undefined_behaviour)
                   else (st1\<lparr>trip := trip st1 @
                                [[TripLegBuilder_Build path
                                    (hd (locations (options st1)))
                                    (last (locations (options st1))) None]]\<rparr>,
                         Inr ())))))"

section \<open>map\_match\<close>

text \<open>The loop that fills out the match points for the OSRM format; \<open>i\<close> is the
  loop counter. The inner loop runs \<^verbatim>\<open>edges.size() - 1\<close> times, an unsigned
  subtraction that wraps when there is no candidate edge.\<close>

fun fill_match_points ::
  "'f external \<Rightarrow> 'f MatchResult list \<Rightarrow> nat \<Rightarrow> 'f Location list \<Rightarrow> error + 'f Location list" where
  "fill_match_points ext [] i sh = Inr sh"
| "fill_match_points ext (match # rest) i sh =
     (if \<not> Is_Valid (MatchResult.edgeid match) then fill_match_points ext rest (i + 1) sh
      else if \<not> i < length sh then Inl undefined_behaviour
      else
        let pe = PathEdge_default
                   \<lparr>ll := Some \<lparr>lat = snd (lnglat match), lng = fst (lnglat match)\<rparr>,
                    names := GetNames ext (MatchResult.edgeid match)\<rparr>;
            sh1 = sh[i := (sh ! i)\<lparr>path_edges := path_edges (sh ! i) @ [pe]\<rparr>]
        in (case stateid match of
              None \<Rightarrow> fill_match_points ext rest (i + 1) sh1
            | Some sid \<Rightarrow>
                (if candidate_edges_size ext sid = 0 then Inl undefined_behaviour
                 else fill_match_points ext rest (i + 1)
                        (sh1[i := (sh1 ! i)\<lparr>path_edges := path_edges (sh1 ! i) @
                                   replicate (candidate_edges_size ext sid - 1) PathEdge_default\<rparr>]))))"

text \<open>The tuples \<^verbatim>\<open>map_match\<close> returns: confidence score, raw score, match results.\<close>

type_synonym 'f map_match_result = "'f \<times> 'f \<times> 'f MatchResult list"

text \<open>The block that fills out the match points, entered for \<^verbatim>\<open>trace_route\<close>
  requests in the OSRM format.\<close>

definition fill_out_match_points ::
  "'f external \<Rightarrow> 'f MatchResults \<Rightarrow> 'f state \<Rightarrow> error + 'f state" where
  "fill_out_match_points ext result st =
     (if action (options st) = Options_trace_route \<and> format (options st) = Options_osrm
      then (case fill_match_points ext (results result) 0 (shape (options st)) of
              Inl e \<Rightarrow> Inl e
            | Inr sh \<Rightarrow> Inr (st\<lparr>options := (options st)\<lparr>shape := sh\<rparr>\<rparr>))
      else Inr st)"

text \<open>The choice of the assembler. \<^verbatim>\<open>build_trace\<close> may change the match results;
  \<^verbatim>\<open>build_route\<close> takes them \<^verbatim>\<open>const\<close>, so they are as they were.\<close>

definition build_trip ::
  "'f::one external \<Rightarrow> 'f path list \<Rightarrow> 'f MatchResult list \<Rightarrow> 'f state \<Rightarrow>
     'f state \<times> (error + 'f MatchResult list)" where
  "build_trip ext paths ms st =
     (if action (options st) = Options_trace_attributes
      then build_trace ext paths ms st
      else (case build_route paths ms st of
              (st1, Inl e) \<Rightarrow> (st1, Inl e)
            | (st1, Inr u) \<Rightarrow> (st1, Inr ms)))"

text \<open>The body of the loop over the interpretations; \<open>acc\<close> is
  \<^verbatim>\<open>map_match_results\<close>.\<close>

definition map_match_step ::
  "'f::{one,inverse} external \<Rightarrow> 'f MatchResults \<Rightarrow> 'f map_match_result list \<Rightarrow> 'f state \<Rightarrow>
     'f state \<times> (error + 'f map_match_result list)" where
  "map_match_step ext result acc st =
     (if segments result = [] then (st, Inl std_exception)
      else
        let paths = MapMatcher_FormPath ext (results result) (segments result) (options st)
        in (case fill_out_match_points ext result st of
              Inl e \<Rightarrow> (st, Inl e)
            | Inr st1 \<Rightarrow>
                (case build_trip ext paths (results result) st1 of
                   (st2, Inl e) \<Rightarrow> (st2, Inl e)
                 | (st2, Inr ms) \<Rightarrow>
                     (st2, Inr (acc @ [(if acc = [] then 1
                                        else fst (snd (hd acc)) / score result,
                                        score result, ms)])))))"

fun map_match_loop ::
  "'f::{one,inverse} external \<Rightarrow> 'f MatchResults list \<Rightarrow> 'f map_match_result list \<Rightarrow>
     'f state \<Rightarrow> 'f state \<times> (error + 'f map_match_result list)" where
  "map_match_loop ext [] acc st = (st, Inr acc)"
| "map_match_loop ext (result # rest) acc st =
     (case map_match_step ext result acc st of
        (st1, Inl e) \<Rightarrow> (st1, Inl e)
      | (st1, Inr acc1) \<Rightarrow> map_match_loop ext rest acc1 st1)"

definition map_match ::
  "'f::{one,inverse} external \<Rightarrow> 'f state \<Rightarrow>
     'f state \<times> (error + 'f map_match_result list)" where
  "map_match ext st =
     (if length (trace st) = 0 then (st, Inr [])
      else
        let topk = (if action (options st) = Options_trace_attributes
                    then best_paths (options st) else 1)
        in map_match_loop ext (OfflineMatch ext (trace st) topk) [] st)"

section \<open>trace\_route\<close>

text \<open>\<^verbatim>\<open>catch (...)\<close> handles every exception; undefined behaviour is not one.\<close>

definition caught :: "error \<Rightarrow> bool" where
  "caught e = (e \<noteq> undefined_behaviour)"

definition edge_walk_message :: "string \<Rightarrow> string" where
  "edge_walk_message name =
     name @ '' algorithm failed to find exact route match.  Try using shape_match:'' @
     [CHR 0x27] @ ''walk_or_snap'' @ [CHR 0x27] @
     '' to fallback to map-matching algorithm''"

definition fallback_message :: "string \<Rightarrow> string" where
  "fallback_message name =
     name @ '' algorithm failed to find exact route match; Falling back to map_match...''"

text \<open>
  \<^verbatim>\<open>trace_route\<close>, from the \<^verbatim>\<open>switch\<close> on: the request has been parsed, which is
  the work of the worker's parsers. \<^verbatim>\<open>log_admin\<close> is given every leg of every route
  of the trip.
\<close>

definition trace_route :: "'f::{one,inverse} external \<Rightarrow> 'f state \<Rightarrow> 'f state \<times> (error + unit)" where
  "trace_route ext st =
     (case (case shape_match (options st) of
              edge_walk \<Rightarrow>
                (case route_match ext st of
                   (st1, Inr u) \<Rightarrow> (st1, Inr ())
                 | (st1, Inl e) \<Rightarrow>
                     (if caught e
                      then (st1, Inl (valhalla_exception_t 443
                              (Some (edge_walk_message
                                 (ShapeMatch_Enum_Name ext (shape_match (options st1)))))))
                      else (st1, Inl e)))
            | map_snap \<Rightarrow>
                (case map_match ext st of
                   (st1, Inr r) \<Rightarrow> (st1, Inr ())
                 | (st1, Inl e) \<Rightarrow>
                     (if caught e then (st1, Inl (valhalla_exception_t 442 None))
                      else (st1, Inl e)))
            | walk_or_snap \<Rightarrow>
                (case route_match ext st of
                   (st1, Inr u) \<Rightarrow> (st1, Inr ())
                 | (st1, Inl e) \<Rightarrow>
                     (if caught e
                      then (case map_match ext
                                   (st1\<lparr>log_warn := log_warn st1 @
                                      [fallback_message
                                         (ShapeMatch_Enum_Name ext (shape_match (options st1)))]\<rparr>) of
                              (st2, Inr r) \<Rightarrow> (st2, Inr ())
                            | (st2, Inl e2) \<Rightarrow>
                                (if caught e2 then (st2, Inl (valhalla_exception_t 442 None))
                                 else (st2, Inl e2)))
                      else (st1, Inl e)))) of
        (st1, Inl e) \<Rightarrow> (st1, Inl e)
      | (st1, Inr u) \<Rightarrow>
          (if \<not> do_not_track (options st1)
           then (st1\<lparr>log_admin := log_admin st1 @ concat (trip st1)\<rparr>, Inr ())
           else (st1, Inr ())))"

section \<open>Concrete inputs\<close>

text \<open>Small inputs on which the functions are evaluated below. Floats are read as
  real numbers there.\<close>

definition example_external :: "real external" where
  "example_external =
     \<lparr>RouteMatcher_FormPath = (\<lambda>_ _. None), OfflineMatch = (\<lambda>_ _. []),
      MapMatcher_FormPath = (\<lambda>_ _ _. []), GetNames = (\<lambda>_. []),
      candidate_edges_size = (\<lambda>_. 1),
      ShapeMatch_Enum_Name =
        (\<lambda>m. case m of edge_walk \<Rightarrow> ''edge_walk'' | map_snap \<Rightarrow> ''map_snap''
              | walk_or_snap \<Rightarrow> ''walk_or_snap''),
      PointLL_default = (0, 0),
      RouteDiscontinuity_default =
        \<lparr>present = False, coordinate = (0, 0), distance_along = 0\<rparr>\<rparr>"

text \<open>A match on edge \<open>n\<close>, half way along it, with the two discontinuity flags.\<close>

definition example_match :: "nat \<Rightarrow> bool \<Rightarrow> bool \<Rightarrow> real MatchResult" where
  "example_match n b e =
     \<lparr>lnglat = (0, 0), distance_from = 0, MatchResult.edgeid = GraphId n,
      MatchResult.distance_along = 1 / 2, stateid = None, MatchResult.edge_index = 0,
      begins_discontinuity = b, ends_discontinuity = e\<rparr>"

definition example_segment :: "nat \<Rightarrow> int \<Rightarrow> int \<Rightarrow> bool \<Rightarrow> EdgeSegment" where
  "example_segment n a b d =
     \<lparr>EdgeSegment.edgeid = GraphId n, first_match_idx = a, last_match_idx = b,
      discontinuity = d\<rparr>"

definition example_edge :: "nat \<Rightarrow> real PathInfo" where
  "example_edge n = \<lparr>edgeid = GraphId n, elapsed_cost = 0\<rparr>"

text \<open>Two paths that meet on edge 1: the first ends on it at match 1, where a gap
  begins, and the second starts on it at match 2, where the gap ends, and goes on to
  edge 2.\<close>

definition same_edge_paths :: "real path list" where
  "same_edge_paths =
     [([example_edge 1], [example_segment 1 0 1 True]),
      ([example_edge 1, example_edge 2],
       [example_segment 1 2 3 False, example_segment 2 4 5 False])]"

definition same_edge_matches :: "real MatchResult list" where
  "same_edge_matches =
     [example_match 1 False False, example_match 1 True False,
      example_match 1 False True, example_match 1 False False,
      example_match 2 False False, example_match 2 False False]"

text \<open>One path on one edge whose first match ends a gap and whose last match begins
  the next one.\<close>

definition merged_gap_path :: "real path" where
  "merged_gap_path = ([example_edge 1], [example_segment 1 0 1 False])"

definition merged_gap_matches :: "real MatchResult list" where
  "merged_gap_matches = [example_match 1 False True, example_match 1 True False]"

text \<open>A path whose two segments lie on edge 1 and whose last match begins a gap,
  followed by a path on edge 2 whose first match ends the gap.\<close>

definition reset_gap_paths :: "real path list" where
  "reset_gap_paths =
     [([example_edge 1], [example_segment 1 0 0 False, example_segment 1 1 1 True]),
      ([example_edge 2], [example_segment 2 2 3 False])]"

definition reset_gap_matches :: "real MatchResult list" where
  "reset_gap_matches =
     [example_match 1 False False, example_match 1 True False,
      example_match 2 False True, example_match 2 False False]"

text \<open>A request whose \<^verbatim>\<open>shape\<close> has \<open>n\<close> untouched locations.\<close>

definition example_location :: "real Location" where
  "example_location =
     \<lparr>path_edges = [], date_time = None, Location.route_index = None, shape_index = None\<rparr>"

definition example_state :: "Action \<Rightarrow> nat \<Rightarrow> real state" where
  "example_state a n =
     \<lparr>options = \<lparr>shape_match = map_snap, action = a, format = Options_other_format,
                  best_paths = 1, do_not_track = True, shape = replicate n example_location,
                  locations = []\<rparr>,
      trip = [], trace = [], cout = [], log_warn = [], log_admin = []\<rparr>"

text \<open>Two edge-cost sequences that meet on edge 2, with different costs on it.\<close>

definition boundary_path_a :: "real path" where
  "boundary_path_a = ([example_edge 1, example_edge 2], [])"

definition boundary_path_b :: "real path" where
  "boundary_path_b = ([\<lparr>edgeid = GraphId 2, elapsed_cost = 5\<rparr>, example_edge 3], [])"

text \<open>A matcher that returns the given interpretations, with a path repair that makes one
  path on edge 1 of an interpretation's segments; the request has two shape points and the
  trace two measurements.\<close>

definition example_matcher :: "real MatchResults list \<Rightarrow> real external" where
  "example_matcher rs =
     example_external\<lparr>OfflineMatch := (\<lambda>_ _. rs),
                       MapMatcher_FormPath := (\<lambda>ms segs _. [([example_edge 1], segs)])\<rparr>"

definition good_interpretation :: "real \<Rightarrow> real MatchResults" where
  "good_interpretation s =
     \<lparr>results = [example_match 1 False False, example_match 1 False False],
      segments = [example_segment 1 0 1 False], score = s\<rparr>"

definition empty_interpretation :: "real MatchResults" where
  "empty_interpretation = \<lparr>results = [], segments = [], score = 3\<rparr>"

definition example_measurement :: "real Measurement" where
  "example_measurement = \<lparr>measurement_lnglat = (0, 0), epoch_time = None, search_radius = 0\<rparr>"

definition matched_state :: "Action \<Rightarrow> real state" where
  "matched_state a = (example_state a 2)\<lparr>trace := [example_measurement, example_measurement]\<rparr>"

text \<open>Three paths over five matches: the second ends with a discontinuity.\<close>

definition split_paths :: "real path list" where
  "split_paths =
     [([example_edge 1], [example_segment 1 0 1 False]),
      ([example_edge 2], [example_segment 2 1 2 True]),
      ([example_edge 3], [example_segment 3 3 4 False])]"

definition split_matches :: "real MatchResult list" where
  "split_matches =
     [example_match 1 False False, example_match 1 False False, example_match 2 True False,
      example_match 3 False True, example_match 3 False False]"

text \<open>A request in the given mode for which the edge walk finds no path and the matcher
  returns one interpretation without segments.\<close>

definition failing_request :: "ShapeMatch \<Rightarrow> real state" where
  "failing_request m =
     (matched_state Options_trace_route)\<lparr>options :=
        (options (matched_state Options_trace_route))\<lparr>shape_match := m\<rparr>\<rparr>"

text \<open>A third edge-cost sequence, on an edge of its own.\<close>

definition boundary_path_c :: "real path" where
  "boundary_path_c = ([example_edge 4], [])"

text \<open>A path whose only segment begins and ends at the same match.\<close>

definition single_match_path :: "real path" where
  "single_match_path = ([example_edge 1], [example_segment 1 0 0 False])"

text \<open>The same matcher with an edge walk that finds a path on edge 1, and a request in the
  given mode with two locations.\<close>

definition walking_matcher :: "real external" where
  "walking_matcher =
     (example_matcher [empty_interpretation])
       \<lparr>RouteMatcher_FormPath := (\<lambda>_ _. Some [example_edge 1])\<rparr>"

definition walkable_request :: "ShapeMatch \<Rightarrow> real state" where
  "walkable_request m =
     (failing_request m)\<lparr>options :=
        (options (failing_request m))\<lparr>locations := [example_location, example_location]\<rparr>\<rparr>"

lemmas example_defs =
  example_external_def example_match_def example_segment_def example_edge_def
  example_location_def example_state_def

lemmas build_trace_loop_defs =
  build_trace_vars_init_def build_trace_path_def build_trace_segment_def
  set_edge_index_def match_at_def handle_discontinuity_end_def handle_discontinuity_start_def

lemmas map_match_defs =
  map_match_def map_match_step_def fill_out_match_points_def build_trip_def build_trace_def
  build_route_def build_route_path_def build_route_leg_def build_route_vars_init_def
  update_shape_def
  add_path_edge_def TripLegBuilder_Build_def cout_path_def
  example_matcher_def good_interpretation_def empty_interpretation_def matched_state_def
  example_measurement_def

lemmas build_route_defs =
  build_route_def build_route_path_def build_route_leg_def build_route_vars_init_def
  match_at_def add_path_edge_def TripLegBuilder_Build_def cout_path_def upto.simps

section \<open>The global edge index\<close>

text \<open>
  C1. The claim: the edge index starts at 0, the stamped values are non-decreasing, and
  adjacent segments with the same edge identifier, also across a path boundary, receive
  the same edge index. The loop stamps a segment before it compares the segment's edge
  with the previous one, so the increment made for a segment shows on the next segment
  only. On the two paths that meet on edge 1 the loop runs without error, and the
  matches of the second path's segment on edge 1 (matches 2 and 3) are stamped 1, not
  the 0 of the first path's segment on the same edge; the segment on edge 2 is stamped
  1 as well. In the concatenated edge sequence, which merges the boundary, edge 1 is at
  position 0 and edge 2 at position 1.
\<close>

theorem build_trace_same_edge_index:
  "\<not> isl (build_trace_paths example_external same_edge_paths
            (build_trace_vars_init same_edge_matches)) \<and>
   map MatchResult.edge_index
     (match_results (projr (build_trace_paths example_external same_edge_paths
        (build_trace_vars_init same_edge_matches)))) = [0, 0, 1, 1, 1, 1] \<and>
   map MatchResult.edgeid same_edge_matches =
     [GraphId 1, GraphId 1, GraphId 1, GraphId 1, GraphId 2, GraphId 2] \<and>
   smash_path_edges same_edge_paths [] = Inr [example_edge 1, example_edge 2]"
  by (simp add: same_edge_paths_def same_edge_matches_def example_defs build_trace_loop_defs)

section \<open>The discontinuity map\<close>

text \<open>The loop over the segments does not touch the discontinuity map.\<close>

lemma set_edge_index_rd:
  "set_edge_index i v = Inr v' \<Longrightarrow> route_discontinuities v' = route_discontinuities v"
  by (auto simp: set_edge_index_def split: if_splits)

lemma build_trace_segment_rd:
  "build_trace_segment s v = Inr v' \<Longrightarrow> route_discontinuities v' = route_discontinuities v"
  by (auto simp: build_trace_segment_def split: if_splits sum.splits dest!: set_edge_index_rd)

lemma build_trace_segments_rd:
  "build_trace_segments ss v = Inr v' \<Longrightarrow> route_discontinuities v' = route_discontinuities v"
proof (induction ss arbitrary: v)
  case Nil
  then show ?case by simp
next
  case (Cons s ss)
  then show ?case
    by (auto split: sum.splits dest!: build_trace_segment_rd)
qed

text \<open>
  C2, as amended. For one path, let \<open>first_match\<close> and \<open>last_match\<close> be the matches
  the code reads after stamping. If \<open>last_match\<close> begins a discontinuity, the entry at
  its edge index gets the end half of \<open>last_match\<close>, and its begin half is kept: it is
  the begin half written just before for \<open>first_match\<close> when that one ends a
  discontinuity at the same index, and otherwise the begin half stored there before the
  path (the default one when there was no entry). If \<open>first_match\<close> ends a
  discontinuity and \<open>last_match\<close> does not begin one at the same index, the entry at
  its index is the begin half of \<open>first_match\<close> with an absent end half of distance 1,
  whatever the map held there before: writing the begin half assigns the whole entry.
\<close>

theorem build_trace_path_discontinuity_halves:
  fixes ext :: "'f::one external"
  assumes "build_trace_path ext path v = Inr v'"
    and "match_at (match_results v') (first_match_idx (hd (snd path))) = Inr first_match"
    and "match_at (match_results v') (last_match_idx (last (snd path))) = Inr last_match"
  shows "(begins_discontinuity last_match \<longrightarrow>
            route_discontinuities v' (MatchResult.edge_index last_match) =
              Some (if ends_discontinuity first_match \<and>
                       MatchResult.edge_index first_match = MatchResult.edge_index last_match
                    then \<lparr>present = True, coordinate = lnglat first_match,
                          distance_along = MatchResult.distance_along first_match\<rparr>
                    else (case route_discontinuities v (MatchResult.edge_index last_match) of
                            None \<Rightarrow> RouteDiscontinuity_default ext
                          | Some p \<Rightarrow> fst p),
                    \<lparr>present = True, coordinate = lnglat last_match,
                     distance_along = MatchResult.distance_along last_match\<rparr>)) \<and>
         (ends_discontinuity first_match \<and>
          \<not> (begins_discontinuity last_match \<and>
             MatchResult.edge_index last_match = MatchResult.edge_index first_match) \<longrightarrow>
            route_discontinuities v' (MatchResult.edge_index first_match) =
              Some (\<lparr>present = True, coordinate = lnglat first_match,
                     distance_along = MatchResult.distance_along first_match\<rparr>,
                    \<lparr>present = False, coordinate = PointLL_default ext, distance_along = 1\<rparr>))"
proof -
  from assms(1) obtain v1 where
      v1: "build_trace_segments (snd path) v = Inr v1"
      and ne: "snd path \<noteq> []"
    by (auto simp: build_trace_path_def split: sum.splits if_splits)
  from assms(1) v1 ne obtain f l where
      f: "match_at (match_results v1) (first_match_idx (hd (snd path))) = Inr f"
      and l: "match_at (match_results v1) (last_match_idx (last (snd path))) = Inr l"
      and v': "v' = v1\<lparr>route_discontinuities :=
                 handle_discontinuity_start ext l
                   (handle_discontinuity_end ext f (route_discontinuities v1))\<rparr>"
    by (auto simp: build_trace_path_def split: sum.splits if_splits)
  from v' have "match_results v' = match_results v1" by simp
  with assms(2,3) f l have fl: "f = first_match" "l = last_match" by simp_all
  have rd: "route_discontinuities v1 = route_discontinuities v"
    using v1 by (rule build_trace_segments_rd)
  show ?thesis
    unfolding v' fl rd
    by (simp add: handle_discontinuity_start_def handle_discontinuity_end_def Let_def
        split: option.splits)
qed

text \<open>The path on one edge whose first match ends a gap and whose last match begins
  one: both halves are in the entry at index 0.\<close>

theorem build_trace_path_discontinuity_halves_witness:
  "\<not> isl (build_trace_path example_external merged_gap_path
            (build_trace_vars_init merged_gap_matches)) \<and>
   route_discontinuities
     (projr (build_trace_path example_external merged_gap_path
        (build_trace_vars_init merged_gap_matches))) 0 =
     Some (\<lparr>present = True, coordinate = (0, 0), distance_along = 1 / 2\<rparr>,
           \<lparr>present = True, coordinate = (0, 0), distance_along = 1 / 2\<rparr>)"
proof -
  let ?v = "build_trace_vars_init merged_gap_matches"
  let ?v' = "projr (build_trace_path example_external merged_gap_path ?v)"
  have 1: "build_trace_path example_external merged_gap_path ?v = Inr ?v'"
    by (simp add: merged_gap_path_def merged_gap_matches_def example_defs build_trace_loop_defs)
  have 2: "match_at (match_results ?v') (first_match_idx (hd (snd merged_gap_path))) =
             Inr (example_match 1 False True)"
    by (simp add: merged_gap_path_def merged_gap_matches_def example_defs build_trace_loop_defs)
  have 3: "match_at (match_results ?v') (last_match_idx (last (snd merged_gap_path))) =
             Inr (example_match 1 True False)"
    by (simp add: merged_gap_path_def merged_gap_matches_def example_defs build_trace_loop_defs)
  have 4: "\<not> isl (build_trace_path example_external merged_gap_path ?v)"
    by (simp add: merged_gap_path_def merged_gap_matches_def example_defs build_trace_loop_defs)
  from build_trace_path_discontinuity_halves [OF 1 2 3]
  have "route_discontinuities ?v' 0 =
          Some (\<lparr>present = True, coordinate = (0, 0), distance_along = 1 / 2\<rparr>,
                \<lparr>present = True, coordinate = (0, 0), distance_along = 1 / 2\<rparr>)"
    by (simp add: example_match_def)
  with 4 show ?thesis by blast
qed

text \<open>
  C2, as stated, fails: after the first path the entry at index 1 holds the end half of
  match 1; the second path's first match ends a discontinuity at the same index, and the
  assignment of the whole entry resets the end half to absent.
\<close>

theorem build_trace_discontinuity_reset:
  "route_discontinuities
     (projr (build_trace_paths example_external (take 1 reset_gap_paths)
        (build_trace_vars_init reset_gap_matches))) 1 =
     Some (\<lparr>present = False, coordinate = (0, 0), distance_along = 0\<rparr>,
           \<lparr>present = True, coordinate = (0, 0), distance_along = 1 / 2\<rparr>) \<and>
   route_discontinuities
     (projr (build_trace_paths example_external reset_gap_paths
        (build_trace_vars_init reset_gap_matches))) 1 =
     Some (\<lparr>present = True, coordinate = (0, 0), distance_along = 1 / 2\<rparr>,
           \<lparr>present = False, coordinate = (0, 0), distance_along = 1\<rparr>)"
  by (simp add: reset_gap_paths_def reset_gap_matches_def example_defs build_trace_loop_defs)

text \<open>Both writes keep the property that an absent begin half is the default-constructed
  marker and an absent end half has distance 1.\<close>

lemma handle_discontinuity_end_absent:
  fixes ext :: "'f::one external"
  assumes "\<forall>k b e. rd k = Some (b, e) \<longrightarrow>
             (\<not> present b \<longrightarrow> b = RouteDiscontinuity_default ext) \<and>
             (\<not> present e \<longrightarrow> RouteDiscontinuity.distance_along e = 1)"
  shows "\<forall>k b e. handle_discontinuity_end ext m rd k = Some (b, e) \<longrightarrow>
             (\<not> present b \<longrightarrow> b = RouteDiscontinuity_default ext) \<and>
             (\<not> present e \<longrightarrow> RouteDiscontinuity.distance_along e = 1)"
  using assms by (auto simp: handle_discontinuity_end_def)

lemma handle_discontinuity_start_absent:
  fixes ext :: "'f::one external"
  assumes "\<forall>k b e. rd k = Some (b, e) \<longrightarrow>
             (\<not> present b \<longrightarrow> b = RouteDiscontinuity_default ext) \<and>
             (\<not> present e \<longrightarrow> RouteDiscontinuity.distance_along e = 1)"
  shows "\<forall>k b e. handle_discontinuity_start ext m rd k = Some (b, e) \<longrightarrow>
             (\<not> present b \<longrightarrow> b = RouteDiscontinuity_default ext) \<and>
             (\<not> present e \<longrightarrow> RouteDiscontinuity.distance_along e = 1)"
  using assms
  by (auto simp: handle_discontinuity_start_def Let_def
      split: option.splits if_splits)

lemma build_trace_path_absent:
  fixes ext :: "'f::one external"
  assumes "build_trace_path ext path v = Inr v'"
    and "\<forall>k b e. route_discontinuities v k = Some (b, e) \<longrightarrow>
             (\<not> present b \<longrightarrow> b = RouteDiscontinuity_default ext) \<and>
             (\<not> present e \<longrightarrow> RouteDiscontinuity.distance_along e = 1)"
  shows "\<forall>k b e. route_discontinuities v' k = Some (b, e) \<longrightarrow>
             (\<not> present b \<longrightarrow> b = RouteDiscontinuity_default ext) \<and>
             (\<not> present e \<longrightarrow> RouteDiscontinuity.distance_along e = 1)"
proof -
  from assms(1) obtain v1 f l where
      v1: "build_trace_segments (snd path) v = Inr v1"
      and v': "v' = v1\<lparr>route_discontinuities :=
                 handle_discontinuity_start ext l
                   (handle_discontinuity_end ext f (route_discontinuities v1))\<rparr>"
    by (auto simp: build_trace_path_def split: sum.splits if_splits)
  have "route_discontinuities v1 = route_discontinuities v"
    using v1 by (rule build_trace_segments_rd)
  with assms(2) have "\<forall>k b e. route_discontinuities v1 k = Some (b, e) \<longrightarrow>
             (\<not> present b \<longrightarrow> b = RouteDiscontinuity_default ext) \<and>
             (\<not> present e \<longrightarrow> RouteDiscontinuity.distance_along e = 1)"
    by simp
  then have "\<forall>k b e. handle_discontinuity_end ext f (route_discontinuities v1) k = Some (b, e) \<longrightarrow>
             (\<not> present b \<longrightarrow> b = RouteDiscontinuity_default ext) \<and>
             (\<not> present e \<longrightarrow> RouteDiscontinuity.distance_along e = 1)"
    by (rule handle_discontinuity_end_absent)
  then have "\<forall>k b e. handle_discontinuity_start ext l
                 (handle_discontinuity_end ext f (route_discontinuities v1)) k = Some (b, e) \<longrightarrow>
             (\<not> present b \<longrightarrow> b = RouteDiscontinuity_default ext) \<and>
             (\<not> present e \<longrightarrow> RouteDiscontinuity.distance_along e = 1)"
    by (rule handle_discontinuity_start_absent)
  with v' show ?thesis by simp
qed

lemma build_trace_paths_absent:
  fixes ext :: "'f::one external"
  assumes "build_trace_paths ext paths v = Inr v'"
    and "\<forall>k b e. route_discontinuities v k = Some (b, e) \<longrightarrow>
             (\<not> present b \<longrightarrow> b = RouteDiscontinuity_default ext) \<and>
             (\<not> present e \<longrightarrow> RouteDiscontinuity.distance_along e = 1)"
  shows "\<forall>k b e. route_discontinuities v' k = Some (b, e) \<longrightarrow>
             (\<not> present b \<longrightarrow> b = RouteDiscontinuity_default ext) \<and>
             (\<not> present e \<longrightarrow> RouteDiscontinuity.distance_along e = 1)"
  using assms
proof (induction paths arbitrary: v)
  case Nil
  then show ?case by simp
next
  case (Cons path rest)
  from Cons.prems(1) obtain v1 where
      step: "build_trace_path ext path v = Inr v1"
      and rest: "build_trace_paths ext rest v1 = Inr v'"
    by (auto split: sum.splits)
  from build_trace_path_absent [OF step Cons.prems(2)] Cons.IH [OF rest]
  show ?case by blast
qed

text \<open>
  C3, as amended. When \<^verbatim>\<open>build_trace\<close> succeeds it appends one route with one leg,
  built with the discontinuity map, and in every entry of that map an absent begin
  half is the default-constructed marker (of distance 0, by the comment in the code on
  the default initializer) and an absent end half has distance 1.
\<close>

theorem build_trace_absent_halves:
  fixes ext :: "'f::one external"
  assumes "build_trace ext paths ms st = (st', Inr ms')"
  shows "\<exists>leg rd. trip st' = trip st @ [[leg]] \<and> leg_route_discontinuities leg = Some rd \<and>
           (\<forall>k b e. rd k = Some (b, e) \<longrightarrow>
              (\<not> present b \<longrightarrow> b = RouteDiscontinuity_default ext) \<and>
              (\<not> present e \<longrightarrow> RouteDiscontinuity.distance_along e = 1))"
proof -
  from assms obtain v where
      loop: "build_trace_paths ext paths (build_trace_vars_init ms) = Inr v"
    by (auto simp: build_trace_def split: sum.splits)
  have "\<forall>k b e. route_discontinuities v k = Some (b, e) \<longrightarrow>
             (\<not> present b \<longrightarrow> b = RouteDiscontinuity_default ext) \<and>
             (\<not> present e \<longrightarrow> RouteDiscontinuity.distance_along e = 1)"
    by (rule build_trace_paths_absent [OF loop]) (simp add: build_trace_vars_init_def)
  moreover from assms loop obtain leg where
      "trip st' = trip st @ [[leg]]"
      "leg_route_discontinuities leg = Some (route_discontinuities v)"
    by (auto simp: build_trace_def Let_def update_shape_def TripLegBuilder_Build_def
        split: sum.splits option.splits if_splits)
  ultimately show ?thesis by blast
qed

text \<open>On the two paths that meet on edge 1 the call succeeds; in the leg's map the entry
  at index 0 has an absent begin half, the default marker with distance 0, and the entry
  at index 1 has an absent end half, of distance 1.\<close>

theorem build_trace_absent_halves_witness:
  "snd (build_trace example_external same_edge_paths same_edge_matches
          (example_state Options_trace_attributes 6)) =
     Inr (projr (snd (build_trace example_external same_edge_paths same_edge_matches
          (example_state Options_trace_attributes 6)))) \<and>
   fst (the (the (leg_route_discontinuities (hd (hd (trip (fst
       (build_trace example_external same_edge_paths same_edge_matches
          (example_state Options_trace_attributes 6))))))) 0)) =
     \<lparr>present = False, coordinate = (0, 0), distance_along = 0\<rparr> \<and>
   \<not> present (snd (the (the (leg_route_discontinuities (hd (hd (trip (fst
       (build_trace example_external same_edge_paths same_edge_matches
          (example_state Options_trace_attributes 6))))))) 1))) \<and>
   RouteDiscontinuity.distance_along
     (snd (the (the (leg_route_discontinuities (hd (hd (trip (fst
       (build_trace example_external same_edge_paths same_edge_matches
          (example_state Options_trace_attributes 6))))))) 1))) = 1"
proof -
  let ?B = "build_trace example_external same_edge_paths same_edge_matches
              (example_state Options_trace_attributes 6)"
  have ev: "trip (example_state Options_trace_attributes 6) = []"
    by (simp add: example_state_def)
  have 1: "?B = (fst ?B, Inr (projr (snd ?B)))"
    by (simp add: build_trace_def same_edge_paths_def same_edge_matches_def example_defs
        build_trace_loop_defs update_shape_def Let_def)
  have 2: "\<exists>b e. the (leg_route_discontinuities (hd (hd (trip (fst ?B))))) 1 = Some (b, e) \<and>
             \<not> present e"
    by (simp add: build_trace_def same_edge_paths_def same_edge_matches_def example_defs
        build_trace_loop_defs update_shape_def Let_def TripLegBuilder_Build_def)
  have 3: "snd ?B = Inr (projr (snd ?B))"
    by (simp add: build_trace_def same_edge_paths_def same_edge_matches_def example_defs
        build_trace_loop_defs update_shape_def Let_def)
  have 4: "\<exists>b e. the (leg_route_discontinuities (hd (hd (trip (fst ?B))))) 0 = Some (b, e) \<and>
             \<not> present b"
    by (simp add: build_trace_def same_edge_paths_def same_edge_matches_def example_defs
        build_trace_loop_defs update_shape_def Let_def TripLegBuilder_Build_def)
  have 5: "RouteDiscontinuity_default example_external =
             \<lparr>present = False, coordinate = (0, 0), distance_along = 0\<rparr>"
    by (simp add: example_external_def)
  from build_trace_absent_halves [OF 1] obtain leg rd where
      t: "trip (fst ?B) = trip (example_state Options_trace_attributes 6) @ [[leg]]"
      and l: "leg_route_discontinuities leg = Some rd"
      and inv: "\<forall>k b e. rd k = Some (b, e) \<longrightarrow>
              (\<not> present b \<longrightarrow> b = RouteDiscontinuity_default example_external) \<and>
              (\<not> present e \<longrightarrow> RouteDiscontinuity.distance_along e = 1)"
    by blast
  from t ev have leg: "hd (hd (trip (fst ?B))) = leg" by simp
  with 2 l obtain b e where be: "rd 1 = Some (b, e)" "\<not> present e" by auto
  with inv have e: "RouteDiscontinuity.distance_along e = 1" by blast
  from leg 4 l obtain b0 e0 where be0: "rd 0 = Some (b0, e0)" "\<not> present b0" by auto
  with inv 5 have b0: "b0 = \<lparr>present = False, coordinate = (0, 0), distance_along = 0\<rparr>"
    by metis
  from be be0 e b0 l leg 3 show ?thesis by simp
qed

text \<open>
  C3, as stated, fails: on the same input the entry at index 1 has an absent end half
  whose distance is 1, not 0.
\<close>

theorem build_trace_absent_end_distance:
  "route_discontinuities
     (projr (build_trace_paths example_external same_edge_paths
        (build_trace_vars_init same_edge_matches))) 1 =
     Some (\<lparr>present = True, coordinate = (0, 0), distance_along = 1 / 2\<rparr>,
           \<lparr>present = False, coordinate = (0, 0), distance_along = 1\<rparr>) \<and>
   RouteDiscontinuity.distance_along (snd (the (route_discontinuities
     (projr (build_trace_paths example_external same_edge_paths
        (build_trace_vars_init same_edge_matches))) 1))) \<noteq> 0"
  by (simp add: same_edge_paths_def same_edge_matches_def example_defs build_trace_loop_defs)

section \<open>The match results\<close>

text \<open>Two sequences of match results agree except for the edge index when they are
  equal once every edge index is set to 0.\<close>

lemma set_edge_index_frame:
  assumes "set_edge_index i v = Inr v'"
  shows "map (MatchResult.edge_index_update (\<lambda>_. 0)) (match_results v') =
         map (MatchResult.edge_index_update (\<lambda>_. 0)) (match_results v)"
  using assms
  by (auto simp: set_edge_index_def map_update list_update_same_conv split: if_splits)

lemma build_trace_segment_frame:
  assumes "build_trace_segment s v = Inr v'"
  shows "map (MatchResult.edge_index_update (\<lambda>_. 0)) (match_results v') =
         map (MatchResult.edge_index_update (\<lambda>_. 0)) (match_results v)"
  using assms
  by (auto simp: build_trace_segment_def split: if_splits sum.splits
      dest!: set_edge_index_frame)

lemma build_trace_segments_frame:
  assumes "build_trace_segments ss v = Inr v'"
  shows "map (MatchResult.edge_index_update (\<lambda>_. 0)) (match_results v') =
         map (MatchResult.edge_index_update (\<lambda>_. 0)) (match_results v)"
  using assms
proof (induction ss arbitrary: v)
  case Nil
  then show ?case by simp
next
  case (Cons s ss)
  then obtain v1 where "build_trace_segment s v = Inr v1" "build_trace_segments ss v1 = Inr v'"
    by (auto split: sum.splits)
  with Cons.IH [of v1] build_trace_segment_frame [of s v v1] show ?case by simp
qed

lemma build_trace_path_frame:
  fixes ext :: "'f::one external"
  assumes "build_trace_path ext path v = Inr v'"
  shows "map (MatchResult.edge_index_update (\<lambda>_. 0)) (match_results v') =
         map (MatchResult.edge_index_update (\<lambda>_. 0)) (match_results v)"
proof -
  from assms obtain v1 where "build_trace_segments (snd path) v = Inr v1"
      "match_results v' = match_results v1"
    by (auto simp: build_trace_path_def split: sum.splits if_splits)
  then show ?thesis using build_trace_segments_frame [of "snd path" v v1] by simp
qed

lemma build_trace_paths_frame:
  fixes ext :: "'f::one external"
  assumes "build_trace_paths ext paths v = Inr v'"
  shows "map (MatchResult.edge_index_update (\<lambda>_. 0)) (match_results v') =
         map (MatchResult.edge_index_update (\<lambda>_. 0)) (match_results v)"
  using assms
proof (induction paths arbitrary: v)
  case Nil
  then show ?case by simp
next
  case (Cons p ps)
  then obtain v1 where "build_trace_path ext p v = Inr v1" "build_trace_paths ext ps v1 = Inr v'"
    by (auto split: sum.splits)
  with Cons.IH [of v1] build_trace_path_frame [of ext p v v1] show ?case by simp
qed

lemma build_trace_frame:
  fixes ext :: "'f::one external"
  assumes "build_trace ext paths ms st = (st', Inr ms')"
  shows "map (MatchResult.edge_index_update (\<lambda>_. 0)) ms' =
         map (MatchResult.edge_index_update (\<lambda>_. 0)) ms"
proof -
  from assms obtain v where "build_trace_paths ext paths (build_trace_vars_init ms) = Inr v"
      "ms' = match_results v"
    by (auto simp: build_trace_def Let_def split: sum.splits option.splits if_splits)
  then show ?thesis
    using build_trace_paths_frame [of ext paths "build_trace_vars_init ms" v]
    by (simp add: build_trace_vars_init_def)
qed

lemma edge_index_frame_nth:
  assumes "map (MatchResult.edge_index_update (\<lambda>_. 0)) ms' =
           map (MatchResult.edge_index_update (\<lambda>_. 0)) ms"
  shows "length ms' = length ms \<and>
         (\<forall>i<length ms. ms' ! i = (ms ! i)\<lparr>MatchResult.edge_index := MatchResult.edge_index (ms' ! i)\<rparr>)"
proof -
  from assms have len: "length ms' = length ms"
    by (rule map_eq_imp_length_eq)
  moreover have "ms' ! i = (ms ! i)\<lparr>MatchResult.edge_index := MatchResult.edge_index (ms' ! i)\<rparr>"
    if "i < length ms" for i
  proof -
    from assms that len
    have "MatchResult.edge_index_update (\<lambda>_. 0) (ms' ! i) =
          MatchResult.edge_index_update (\<lambda>_. 0) (ms ! i)"
      by (metis nth_map)
    then show ?thesis
      by (cases "ms' ! i"; cases "ms ! i") simp
  qed
  ultimately show ?thesis by blast
qed

section \<open>The map-match orchestrator\<close>


lemma build_trip_frame:
  fixes ext :: "'f::one external"
  assumes "build_trip ext paths ms st = (st', Inr ms')"
  shows "map (MatchResult.edge_index_update (\<lambda>_. 0)) ms' =
         map (MatchResult.edge_index_update (\<lambda>_. 0)) ms \<and>
         (action (options st) \<noteq> Options_trace_attributes \<longrightarrow> ms' = ms)"
  using assms
  by (auto simp: build_trip_def split: if_splits prod.splits sum.splits dest: build_trace_frame)

lemma map_match_step_Inr:
  fixes ext :: "'f::{one,inverse} external"
  assumes "map_match_step ext r acc st = (st', Inr out)"
  shows "segments r \<noteq> [] \<and>
         (\<exists>ms. out = acc @ [(if acc = [] then 1 else fst (snd (hd acc)) / score r, score r, ms)] \<and>
            map (MatchResult.edge_index_update (\<lambda>_. 0)) ms =
            map (MatchResult.edge_index_update (\<lambda>_. 0)) (results r))"
proof -
  from assms have ne: "segments r \<noteq> []"
    by (auto simp: map_match_step_def split: if_splits)
  with assms obtain st1 ms where
      "build_trip ext (MapMatcher_FormPath ext (results r) (segments r) (options st))
         (results r) st1 = (st', Inr ms)"
      "out = acc @ [(if acc = [] then 1 else fst (snd (hd acc)) / score r, score r, ms)]"
    by (auto simp: map_match_step_def Let_def split: sum.splits prod.splits)
  with ne build_trip_frame show ?thesis by blast
qed


lemma map_match_loop_tuples:
  fixes ext :: "'f::{one,inverse} external"
  assumes "map_match_loop ext rs acc st = (st', Inr out)"
  shows "\<exists>new. out = acc @ new \<and> length new = length rs \<and>
           (\<forall>i<length rs.
              fst (new ! i) = (if acc = [] \<and> i = 0 then 1
                               else fst (snd (hd (acc @ new))) / score (rs ! i)) \<and>
              fst (snd (new ! i)) = score (rs ! i) \<and>
              map (MatchResult.edge_index_update (\<lambda>_. 0)) (snd (snd (new ! i))) =
              map (MatchResult.edge_index_update (\<lambda>_. 0)) (results (rs ! i)))"
  using assms
proof (induction rs arbitrary: acc st)
  case Nil
  then show ?case by simp
next
  case (Cons r rs)
  from Cons.prems obtain st1 acc1 where
      step: "map_match_step ext r acc st = (st1, Inr acc1)"
      and loop: "map_match_loop ext rs acc1 st1 = (st', Inr out)"
    by (auto split: prod.splits sum.splits)
  from map_match_step_Inr [OF step] obtain ms where
      acc1: "acc1 = acc @ [(if acc = [] then 1 else fst (snd (hd acc)) / score r, score r, ms)]"
      and ms: "map (MatchResult.edge_index_update (\<lambda>_. 0)) ms =
               map (MatchResult.edge_index_update (\<lambda>_. 0)) (results r)"
    by blast
  from Cons.IH [OF loop] obtain new where
      out: "out = acc1 @ new" and len: "length new = length rs"
      and new: "\<forall>i<length rs.
              fst (new ! i) = (if acc1 = [] \<and> i = 0 then 1
                               else fst (snd (hd (acc1 @ new))) / score (rs ! i)) \<and>
              fst (snd (new ! i)) = score (rs ! i) \<and>
              map (MatchResult.edge_index_update (\<lambda>_. 0)) (snd (snd (new ! i))) =
              map (MatchResult.edge_index_update (\<lambda>_. 0)) (results (rs ! i))"
    by blast
  let ?t = "(if acc = [] then 1 else fst (snd (hd acc)) / score r, score r, ms)"
  let ?new = "?t # new"
  have "out = acc @ ?new" using out acc1 by simp
  moreover have "length ?new = length (r # rs)" using len by simp
  moreover have "fst (?new ! i) = (if acc = [] \<and> i = 0 then 1
                               else fst (snd (hd (acc @ ?new))) / score ((r # rs) ! i)) \<and>
              fst (snd (?new ! i)) = score ((r # rs) ! i) \<and>
              map (MatchResult.edge_index_update (\<lambda>_. 0)) (snd (snd (?new ! i))) =
              map (MatchResult.edge_index_update (\<lambda>_. 0)) (results ((r # rs) ! i))"
    if "i < length (r # rs)" for i
  proof (cases i)
    case 0
    with ms show ?thesis by (cases acc) simp_all
  next
    case (Suc j)
    with that have "j < length rs" by simp
    with new acc1 Suc show ?thesis by (cases acc) simp_all
  qed
  ultimately show ?case by blast
qed

text \<open>
  C8. When \<open>map_match\<close> returns for a non-empty trace, it returns one tuple for each
  interpretation of the matcher, in rank order: the confidence score of the first is 1
  and that of every later one is the raw score of the first divided by its own raw
  score; the tuple carries the interpretation's raw score and its match results, which
  are the matcher's up to the edge index.
\<close>

theorem map_match_scores:
  fixes ext :: "'f::{one,inverse} external"
  assumes "trace st \<noteq> []"
    and "map_match ext st = (st', Inr tuples)"
    and "rs = OfflineMatch ext (trace st)
                (if action (options st) = Options_trace_attributes
                 then best_paths (options st) else 1)"
  shows "length tuples = length rs \<and>
         (\<forall>i<length rs.
            fst (tuples ! i) = (if i = 0 then 1 else score (rs ! 0) / score (rs ! i)) \<and>
            fst (snd (tuples ! i)) = score (rs ! i) \<and>
            length (snd (snd (tuples ! i))) = length (results (rs ! i)) \<and>
            (\<forall>j<length (results (rs ! i)).
               snd (snd (tuples ! i)) ! j =
                 (results (rs ! i) ! j)\<lparr>MatchResult.edge_index :=
                    MatchResult.edge_index (snd (snd (tuples ! i)) ! j)\<rparr>))"
proof -
  from assms have "map_match_loop ext rs [] st = (st', Inr tuples)"
    by (simp add: map_match_def Let_def)
  from map_match_loop_tuples [OF this] have
      len: "length tuples = length rs"
      and new: "\<forall>i<length rs.
              fst (tuples ! i) = (if i = 0 then 1
                               else fst (snd (hd tuples)) / score (rs ! i)) \<and>
              fst (snd (tuples ! i)) = score (rs ! i) \<and>
              map (MatchResult.edge_index_update (\<lambda>_. 0)) (snd (snd (tuples ! i))) =
              map (MatchResult.edge_index_update (\<lambda>_. 0)) (results (rs ! i))"
    by auto
  have "fst (tuples ! i) = (if i = 0 then 1 else score (rs ! 0) / score (rs ! i)) \<and>
        fst (snd (tuples ! i)) = score (rs ! i) \<and>
        length (snd (snd (tuples ! i))) = length (results (rs ! i)) \<and>
        (\<forall>j<length (results (rs ! i)).
               snd (snd (tuples ! i)) ! j =
                 (results (rs ! i) ! j)\<lparr>MatchResult.edge_index :=
                    MatchResult.edge_index (snd (snd (tuples ! i)) ! j)\<rparr>)"
    if i: "i < length rs" for i
  proof -
    from i len have "tuples \<noteq> []" "0 < length rs" by auto
    with new have "fst (snd (hd tuples)) = score (rs ! 0)"
      by (simp add: hd_conv_nth)
    with new i edge_index_frame_nth [of "snd (snd (tuples ! i))" "results (rs ! i)"]
    show ?thesis by simp
  qed
  with len show ?thesis by blast
qed

text \<open>Two interpretations with raw scores 2 and 4.\<close>

theorem map_match_scores_witness:
  "map fst (projr (snd (map_match (example_matcher [good_interpretation 2, good_interpretation 4])
      (matched_state Options_trace_attributes)))) = [1, 1 / 2] \<and>
   map (fst \<circ> snd) (projr (snd (map_match
      (example_matcher [good_interpretation 2, good_interpretation 4])
      (matched_state Options_trace_attributes)))) = [2, 4]"
proof -
  let ?ext = "example_matcher [good_interpretation 2, good_interpretation 4]"
  let ?st = "matched_state Options_trace_attributes"
  let ?M = "map_match ?ext ?st"
  have 1: "trace ?st \<noteq> []"
    by (simp add: matched_state_def)
  have 2: "?M = (fst ?M, Inr (projr (snd ?M)))"
    by (simp add: map_match_defs example_defs build_trace_loop_defs Let_def)
  have 3: "[good_interpretation 2, good_interpretation 4] =
           OfflineMatch ?ext (trace ?st)
             (if action (options ?st) = Options_trace_attributes
              then best_paths (options ?st) else 1)"
    by (simp add: example_matcher_def)
  from map_match_scores [OF 1 2 3] have
      "length (projr (snd ?M)) = 2"
      "fst (projr (snd ?M) ! 0) = 1" "fst (projr (snd ?M) ! 1) = 1 / 2"
      "fst (snd (projr (snd ?M) ! 0)) = 2" "fst (snd (projr (snd ?M) ! 1)) = 4"
    by (simp_all add: good_interpretation_def)
  then show ?thesis
    by (cases "projr (snd ?M)"; simp) (rename_tac t ts, case_tac ts; simp)
qed

text \<open>
  C9. The first loop of \<open>build_trace\<close>, and \<open>build_trace\<close> as a whole, leave the
  sequence of match results with its length, and every match result with all its fields
  but the edge index. When the request is not \<open>trace_attributes\<close>, so that the assembler
  is \<open>build_route\<close>, the match results are the ones given.
\<close>

theorem match_results_frame:
  fixes ext :: "'f::one external"
  shows
  "(build_trace_paths ext paths v = Inr v' \<longrightarrow>
      length (match_results v') = length (match_results v) \<and>
      (\<forall>i<length (match_results v).
         match_results v' ! i =
           (match_results v ! i)\<lparr>MatchResult.edge_index :=
              MatchResult.edge_index (match_results v' ! i)\<rparr>)) \<and>
   (build_trace ext paths ms st = (st', Inr ms') \<longrightarrow>
      length ms' = length ms \<and>
      (\<forall>i<length ms.
         ms' ! i = (ms ! i)\<lparr>MatchResult.edge_index := MatchResult.edge_index (ms' ! i)\<rparr>)) \<and>
   (action (options st) \<noteq> Options_trace_attributes \<and>
    build_trip ext paths ms st = (st', Inr ms') \<longrightarrow> ms' = ms)"
proof -
  have "length (match_results v') = length (match_results v) \<and>
      (\<forall>i<length (match_results v).
         match_results v' ! i =
           (match_results v ! i)\<lparr>MatchResult.edge_index :=
              MatchResult.edge_index (match_results v' ! i)\<rparr>)"
    if "build_trace_paths ext paths v = Inr v'"
    using that by (intro edge_index_frame_nth build_trace_paths_frame)
  moreover have "length ms' = length ms \<and>
      (\<forall>i<length ms.
         ms' ! i = (ms ! i)\<lparr>MatchResult.edge_index := MatchResult.edge_index (ms' ! i)\<rparr>)"
    if "build_trace ext paths ms st = (st', Inr ms')"
    using that by (intro edge_index_frame_nth build_trace_frame)
  moreover have "ms' = ms"
    if "action (options st) \<noteq> Options_trace_attributes \<and>
        build_trip ext paths ms st = (st', Inr ms')"
    using that build_trip_frame [of ext paths ms st st' ms'] by simp
  ultimately show ?thesis by blast
qed

text \<open>On the two paths that meet on edge 1, match 2 is changed in its edge index only;
  \<open>build_route\<close> on one path returns the match results it was given.\<close>

theorem match_results_frame_witness:
  "length (projr (snd (build_trace example_external same_edge_paths same_edge_matches
        (example_state Options_trace_attributes 6)))) = 6 \<and>
   projr (snd (build_trace example_external same_edge_paths same_edge_matches
        (example_state Options_trace_attributes 6))) ! 2 =
     (example_match 1 False True)\<lparr>MatchResult.edge_index := 1\<rparr> \<and>
   projr (snd (build_trip example_external [merged_gap_path] merged_gap_matches
     (example_state Options_trace_route 2))) = merged_gap_matches"
proof -
  let ?B = "build_trace example_external same_edge_paths same_edge_matches
              (example_state Options_trace_attributes 6)"
  let ?R = "build_trip example_external [merged_gap_path] merged_gap_matches
              (example_state Options_trace_route 2)"
  have 1: "?B = (fst ?B, Inr (projr (snd ?B)))"
    by (simp add: build_trace_def same_edge_paths_def same_edge_matches_def example_defs
        build_trace_loop_defs update_shape_def Let_def)
  have 2: "action (options (example_state Options_trace_route 2)) \<noteq> Options_trace_attributes"
    by (simp add: example_state_def)
  have 3: "?R = (fst ?R, Inr (projr (snd ?R)))"
    by (simp add: build_trip_def build_route_def build_route_path_def build_route_leg_def
        build_route_vars_init_def merged_gap_path_def merged_gap_matches_def example_defs match_at_def Let_def upto.simps
        split: prod.splits)
  have 4: "MatchResult.edge_index (projr (snd ?B) ! 2) = 1"
    by (simp add: build_trace_def same_edge_paths_def same_edge_matches_def example_defs
        build_trace_loop_defs update_shape_def Let_def)
  have 5: "length same_edge_matches = 6" "same_edge_matches ! 2 = example_match 1 False True"
    by (simp_all add: same_edge_matches_def)
  from match_results_frame [of example_external same_edge_paths _ _ same_edge_matches
      "example_state Options_trace_attributes 6" "fst ?B" "projr (snd ?B)"] 1
  have "length (projr (snd ?B)) = length same_edge_matches"
    and "\<forall>i<length same_edge_matches.
         projr (snd ?B) ! i = (same_edge_matches ! i)\<lparr>MatchResult.edge_index :=
            MatchResult.edge_index (projr (snd ?B) ! i)\<rparr>"
    by simp_all
  then have "length (projr (snd ?B)) = 6"
    and "projr (snd ?B) ! 2 = (same_edge_matches ! 2)\<lparr>MatchResult.edge_index :=
            MatchResult.edge_index (projr (snd ?B) ! 2)\<rparr>"
    using 5(1) by simp_all
  then have "length (projr (snd ?B)) = 6"
    and "projr (snd ?B) ! 2 = (example_match 1 False True)\<lparr>MatchResult.edge_index := 1\<rparr>"
    using 4 5(2) by simp_all
  moreover from match_results_frame [of example_external "[merged_gap_path]" _ _
      merged_gap_matches "example_state Options_trace_route 2" "fst ?R" "projr (snd ?R)"] 2 3
  have "projr (snd ?R) = merged_gap_matches"
    by simp
  ultimately show ?thesis by simp
qed




section \<open>The concatenated edge sequence\<close>

lemma smash_path_edges_append:
  "smash_path_edges (ps @ qs) acc =
     (case smash_path_edges ps acc of Inl e \<Rightarrow> Inl e | Inr acc1 \<Rightarrow> smash_path_edges qs acc1)"
  by (induction ps arbitrary: acc) (simp_all add: Let_def)

lemma smash_path_edges_boundary:
  assumes "fst a \<noteq> []" and "fst b \<noteq> []"
    and "PathInfo.edgeid (last (fst a)) = PathInfo.edgeid (hd (fst b))"
  shows "smash_path_edges (a # b # qs) acc =
         smash_path_edges ((fst a @ tl (fst b), segs) # qs) acc"
proof -
  from assms(1) obtain x xs where a: "fst a = x # xs"
    by (cases "fst a") auto
  show ?thesis
  proof (cases "acc \<noteq> [] \<and> PathInfo.edgeid (last acc) = PathInfo.edgeid x")
    case True
    with a assms have "PathInfo.edgeid (last (acc @ xs)) = PathInfo.edgeid (hd (fst b))"
      by (auto simp: last_append)
    with True a assms show ?thesis
      by (simp add: Let_def drop_Suc)
  next
    case False
    with a assms show ?thesis
      by (auto simp: Let_def drop_Suc)
  qed
qed

lemma smash_path_edges_distinct_adj:
  assumes "smash_path_edges paths acc = Inr edges"
    and "distinct_adj (map PathInfo.edgeid acc)"
    and "\<forall>p \<in> set paths. distinct_adj (map PathInfo.edgeid (fst p))"
  shows "distinct_adj (map PathInfo.edgeid edges)"
  using assms
proof (induction paths arbitrary: acc)
  case Nil
  then show ?case by simp
next
  case (Cons p rest)
  let ?m = "acc \<noteq> [] \<and> PathInfo.edgeid (last acc) = PathInfo.edgeid (hd (fst p))"
  let ?acc = "acc @ drop (if ?m then 1 else 0) (fst p)"
  from Cons.prems(1) have rest: "smash_path_edges rest ?acc = Inr edges"
    and ne: "acc = [] \<or> fst p \<noteq> []"
    by (auto simp: Let_def split: if_splits)
  have p: "distinct_adj (map PathInfo.edgeid (fst p))"
    using Cons.prems(3) by simp
  have "distinct_adj (map PathInfo.edgeid ?acc)"
  proof (cases ?m)
    case True
    then obtain x xs where xs: "fst p = x # xs"
      using ne by (cases "fst p") auto
    with p have "distinct_adj (map PathInfo.edgeid xs)"
      and "xs \<noteq> [] \<longrightarrow> PathInfo.edgeid (hd xs) \<noteq> PathInfo.edgeid x"
      by (cases xs; auto)+
    with True xs Cons.prems(2) show ?thesis
      by (auto simp: distinct_adj_append_iff last_map hd_map)
  next
    case False
    with p Cons.prems(2) show ?thesis
      by (auto simp: distinct_adj_append_iff last_map hd_map)
  qed
  with Cons.IH [OF rest] Cons.prems(3) show ?case by simp
qed

lemma smash_path_edges_snoc:
  "smash_path_edges (ps @ [p]) acc =
     (case smash_path_edges ps acc of
        Inl e \<Rightarrow> Inl e
      | Inr edges \<Rightarrow>
          if edges \<noteq> [] \<and> fst p = [] then Inl undefined_behaviour
          else Inr (edges @
                 (if edges \<noteq> [] \<and> PathInfo.edgeid (last edges) = PathInfo.edgeid (hd (fst p))
                  then tl (fst p) else fst p)))"
  by (simp add: smash_path_edges_append Let_def drop_Suc split: sum.splits)

lemma smash_path_edges_total:
  assumes "\<forall>p \<in> set paths. fst p \<noteq> []"
  shows "\<exists>edges. smash_path_edges paths acc = Inr edges"
  using assms by (induction paths arbitrary: acc) (simp_all add: Let_def)

text \<open>
  C7. The concatenation of no paths is the sequence so far. The concatenation of the paths
  \<open>ps\<close> followed by one more path \<open>p\<close> is the concatenation of \<open>ps\<close> followed by the
  edges of \<open>p\<close>, without the first of them exactly when the concatenation of \<open>ps\<close> is
  not empty and its last edge has the identifier of the first edge of \<open>p\<close>; reading the
  first edge of a path without edges after a non-empty concatenation is undefined
  behaviour. For paths that all have edges the concatenation is defined. So for two paths
  with edges, the concatenation keeps the first path and drops the first edge of the second
  exactly when its identifier equals that of the last edge of the first. Anywhere in the
  list of paths, two neighbouring paths whose boundary edges have the same identifier give
  the same result as the single path in which they are already merged. If no path has two
  adjacent entries with the same identifier, the result has none either: the shared edge
  appears once.
\<close>

theorem smash_path_edges_merge:
  "smash_path_edges [] acc = Inr acc \<and>
   smash_path_edges (ps @ [p]) acc =
     (case smash_path_edges ps acc of
        Inl e \<Rightarrow> Inl e
      | Inr edges \<Rightarrow>
          if edges \<noteq> [] \<and> fst p = [] then Inl undefined_behaviour
          else Inr (edges @
                 (if edges \<noteq> [] \<and> PathInfo.edgeid (last edges) = PathInfo.edgeid (hd (fst p))
                  then tl (fst p) else fst p))) \<and>
   ((\<forall>p \<in> set paths. fst p \<noteq> []) \<longrightarrow> (\<exists>edges. smash_path_edges paths [] = Inr edges)) \<and>
   (fst a \<noteq> [] \<and> fst b \<noteq> [] \<longrightarrow>
      smash_path_edges [a, b] [] =
        Inr (fst a @ (if PathInfo.edgeid (last (fst a)) = PathInfo.edgeid (hd (fst b))
                      then tl (fst b) else fst b))) \<and>
   (fst a \<noteq> [] \<and> fst b \<noteq> [] \<and>
    PathInfo.edgeid (last (fst a)) = PathInfo.edgeid (hd (fst b)) \<longrightarrow>
      smash_path_edges (ps @ a # b # qs) acc =
      smash_path_edges (ps @ (fst a @ tl (fst b), segs) # qs) acc) \<and>
   ((\<forall>p \<in> set paths. distinct_adj (map PathInfo.edgeid (fst p))) \<and>
    smash_path_edges paths [] = Inr edges \<longrightarrow>
      distinct_adj (map PathInfo.edgeid edges))"
proof -
  have "smash_path_edges [a, b] [] =
        Inr (fst a @ (if PathInfo.edgeid (last (fst a)) = PathInfo.edgeid (hd (fst b))
                      then tl (fst b) else fst b))"
    if "fst a \<noteq> [] \<and> fst b \<noteq> []"
    using that by (auto simp: Let_def drop_Suc)
  moreover have "smash_path_edges (ps @ a # b # qs) acc =
      smash_path_edges (ps @ (fst a @ tl (fst b), segs) # qs) acc"
    if "fst a \<noteq> [] \<and> fst b \<noteq> [] \<and>
        PathInfo.edgeid (last (fst a)) = PathInfo.edgeid (hd (fst b))"
    using that smash_path_edges_boundary [of a b qs _ segs]
    by (simp add: smash_path_edges_append split: sum.splits)
  moreover have "distinct_adj (map PathInfo.edgeid edges)"
    if "(\<forall>p \<in> set paths. distinct_adj (map PathInfo.edgeid (fst p))) \<and>
        smash_path_edges paths [] = Inr edges"
    using that smash_path_edges_distinct_adj [of paths "[]" edges] by simp
  moreover have "\<exists>edges. smash_path_edges paths [] = Inr edges"
    if "\<forall>p \<in> set paths. fst p \<noteq> []"
    using that by (rule smash_path_edges_total)
  moreover note smash_path_edges_snoc [of ps p acc]
  moreover have "smash_path_edges [] acc = Inr acc" by simp
  ultimately show ?thesis by blast
qed

text \<open>Two paths that meet on edge 2 give the edges 1, 2, 3, as the merged path does; a
  third path on edge 4 is appended whole.\<close>

theorem smash_path_edges_merge_witness:
  "smash_path_edges [boundary_path_a, boundary_path_b] [] =
     Inr [example_edge 1, example_edge 2, example_edge 3] \<and>
   smash_path_edges [boundary_path_a, boundary_path_b, boundary_path_c] [] =
     Inr [example_edge 1, example_edge 2, example_edge 3, example_edge 4] \<and>
   smash_path_edges [boundary_path_a, boundary_path_b] [] =
     smash_path_edges [([example_edge 1, example_edge 2, example_edge 3], [])] [] \<and>
   distinct_adj (map PathInfo.edgeid [example_edge 1, example_edge 2, example_edge 3])"
proof -
  note inst = smash_path_edges_merge [where a = boundary_path_a and b = boundary_path_b
      and ps = "[boundary_path_a, boundary_path_b]" and p = boundary_path_c
      and qs = "[]" and acc = "[]" and segs = "[]"
      and paths = "[boundary_path_a, boundary_path_b]"
      and edges = "[example_edge 1, example_edge 2, example_edge 3]"]
  note inst0 = smash_path_edges_merge [where a = boundary_path_a and b = boundary_path_b
      and ps = "[]" and p = boundary_path_c
      and qs = "[]" and acc = "[]" and segs = "[]"
      and paths = "[boundary_path_a, boundary_path_b]"
      and edges = "[example_edge 1, example_edge 2, example_edge 3]"]
  have ab: "smash_path_edges [boundary_path_a, boundary_path_b] [] =
     Inr [example_edge 1, example_edge 2, example_edge 3]"
    using inst0 by (simp add: boundary_path_a_def boundary_path_b_def example_edge_def)
  have "smash_path_edges ([boundary_path_a, boundary_path_b] @ [boundary_path_c]) [] =
     Inr [example_edge 1, example_edge 2, example_edge 3, example_edge 4]"
    unfolding inst [THEN conjunct2, THEN conjunct1] ab
    by (simp add: boundary_path_c_def example_edge_def)
  moreover have "smash_path_edges [boundary_path_a, boundary_path_b] [] =
     smash_path_edges [([example_edge 1, example_edge 2, example_edge 3], [])] []"
    using inst0 by (simp add: boundary_path_a_def boundary_path_b_def example_edge_def)
  moreover have "distinct_adj (map PathInfo.edgeid [example_edge 1, example_edge 2, example_edge 3])"
    using inst0 ab by (simp add: boundary_path_a_def boundary_path_b_def example_edge_def)
  ultimately show ?thesis using ab by simp
qed

section \<open>The strategy dispatcher\<close>

lemma route_match_shape_match:
  "route_match ext st = (st1, r) \<Longrightarrow> shape_match (options st1) = shape_match (options st)"
  by (auto simp: route_match_def split: option.splits if_splits sum.splits)

text \<open>
  C6. In \<open>edge_walk\<close> mode \<open>trace_route\<close> is \<open>route_match\<close> and nothing else: its
  success is the success of the request, and its failure becomes error 443 with the
  message that names \<open>walk_or_snap\<close>, the request being as \<open>route_match\<close> left it. In
  \<open>map_snap\<close> mode it is \<open>map_match\<close> and nothing else, whose failure becomes error
  442. In \<open>walk_or_snap\<close> mode the success of \<open>route_match\<close> is the success of the
  request, without \<open>map_match\<close>; its failure is logged and \<open>map_match\<close> is applied
  once to the request as \<open>route_match\<close> left it; the failure of that becomes error 442
  and its success is the success of the request. A successful request gives its legs to
  \<open>log_admin\<close> unless it is not to be tracked. Every error of \<open>trace_route\<close> is 443
  in \<open>edge_walk\<close> mode and 442 in the other two, and they differ. (Undefined behaviour
  is no exception and is not caught.)
\<close>

theorem trace_route_errors:
  fixes ext :: "'f::{one,inverse} external"
  shows
  "(shape_match (options st) = edge_walk \<and> route_match ext st = (st1, r1) \<longrightarrow>
      trace_route ext st =
        (case r1 of
           Inr u \<Rightarrow>
             (if do_not_track (options st1) then st1
              else st1\<lparr>log_admin := log_admin st1 @ concat (trip st1)\<rparr>, Inr ())
         | Inl e \<Rightarrow>
             (st1, Inl (if caught e
                        then valhalla_exception_t 443
                               (Some (edge_walk_message (ShapeMatch_Enum_Name ext edge_walk)))
                        else e)))) \<and>
   (shape_match (options st) = map_snap \<and> map_match ext st = (st1, m1) \<longrightarrow>
      trace_route ext st =
        (case m1 of
           Inr r \<Rightarrow>
             (if do_not_track (options st1) then st1
              else st1\<lparr>log_admin := log_admin st1 @ concat (trip st1)\<rparr>, Inr ())
         | Inl e \<Rightarrow> (st1, Inl (if caught e then valhalla_exception_t 442 None else e)))) \<and>
   (shape_match (options st) = walk_or_snap \<and> route_match ext st = (st1, r1) \<longrightarrow>
      trace_route ext st =
        (case r1 of
           Inr u \<Rightarrow>
             (if do_not_track (options st1) then st1
              else st1\<lparr>log_admin := log_admin st1 @ concat (trip st1)\<rparr>, Inr ())
         | Inl e \<Rightarrow>
             if caught e
             then (case map_match ext
                          (st1\<lparr>log_warn := log_warn st1 @
                             [fallback_message (ShapeMatch_Enum_Name ext walk_or_snap)]\<rparr>) of
                     (st2, Inl e2) \<Rightarrow>
                       (st2, Inl (if caught e2 then valhalla_exception_t 442 None else e2))
                   | (st2, Inr r) \<Rightarrow>
                       (if do_not_track (options st2) then st2
                        else st2\<lparr>log_admin := log_admin st2 @ concat (trip st2)\<rparr>, Inr ()))
             else (st1, Inl e))) \<and>
   (trace_route ext st = (st', Inl err) \<longrightarrow>
      err = undefined_behaviour \<or>
      (shape_match (options st) = edge_walk \<and>
       err = valhalla_exception_t 443
               (Some (edge_walk_message (ShapeMatch_Enum_Name ext edge_walk)))) \<or>
      (shape_match (options st) \<noteq> edge_walk \<and> err = valhalla_exception_t 442 None)) \<and>
   valhalla_exception_t 443 (Some (edge_walk_message (ShapeMatch_Enum_Name ext edge_walk))) \<noteq>
     valhalla_exception_t 442 None"
proof -
  have walk: "trace_route ext st =
        (case r1 of
           Inr u \<Rightarrow>
             (if do_not_track (options st1) then st1
              else st1\<lparr>log_admin := log_admin st1 @ concat (trip st1)\<rparr>, Inr ())
         | Inl e \<Rightarrow>
             (st1, Inl (if caught e
                        then valhalla_exception_t 443
                               (Some (edge_walk_message (ShapeMatch_Enum_Name ext edge_walk)))
                        else e)))"
    if "shape_match (options st) = edge_walk \<and> route_match ext st = (st1, r1)"
    using that route_match_shape_match [of ext st st1 r1]
    by (simp add: trace_route_def split: sum.splits)
  have snap: "trace_route ext st =
        (case m1 of
           Inr r \<Rightarrow>
             (if do_not_track (options st1) then st1
              else st1\<lparr>log_admin := log_admin st1 @ concat (trip st1)\<rparr>, Inr ())
         | Inl e \<Rightarrow> (st1, Inl (if caught e then valhalla_exception_t 442 None else e)))"
    if "shape_match (options st) = map_snap \<and> map_match ext st = (st1, m1)"
    using that by (simp add: trace_route_def split: sum.splits)
  have both: "trace_route ext st =
        (case r1 of
           Inr u \<Rightarrow>
             (if do_not_track (options st1) then st1
              else st1\<lparr>log_admin := log_admin st1 @ concat (trip st1)\<rparr>, Inr ())
         | Inl e \<Rightarrow>
             if caught e
             then (case map_match ext
                          (st1\<lparr>log_warn := log_warn st1 @
                             [fallback_message (ShapeMatch_Enum_Name ext walk_or_snap)]\<rparr>) of
                     (st2, Inl e2) \<Rightarrow>
                       (st2, Inl (if caught e2 then valhalla_exception_t 442 None else e2))
                   | (st2, Inr r) \<Rightarrow>
                       (if do_not_track (options st2) then st2
                        else st2\<lparr>log_admin := log_admin st2 @ concat (trip st2)\<rparr>, Inr ()))
             else (st1, Inl e))"
    if "shape_match (options st) = walk_or_snap \<and> route_match ext st = (st1, r1)"
    using that route_match_shape_match [of ext st st1 r1]
    by (simp add: trace_route_def split: sum.splits prod.splits)
  have errs: "err = undefined_behaviour \<or>
      (shape_match (options st) = edge_walk \<and>
       err = valhalla_exception_t 443
               (Some (edge_walk_message (ShapeMatch_Enum_Name ext edge_walk)))) \<or>
      (shape_match (options st) \<noteq> edge_walk \<and> err = valhalla_exception_t 442 None)"
    if "trace_route ext st = (st', Inl err)"
    using that
    by (cases "shape_match (options st)")
       (auto simp: trace_route_def caught_def split: prod.splits sum.splits if_splits
          dest: route_match_shape_match)
  have "valhalla_exception_t 443 (Some (edge_walk_message (ShapeMatch_Enum_Name ext edge_walk))) \<noteq>
     valhalla_exception_t 442 None"
    by simp
  with walk snap both errs show ?thesis by blast
qed

text \<open>In each of the three modes both strategies fail on the failing request; when the edge
  walk finds a path, the \<open>edge_walk\<close> and \<open>walk_or_snap\<close> requests succeed with the one
  route of the walk and without a warning, although the matcher would fail on the request
  that the walk leaves.\<close>

theorem trace_route_errors_witness:
  "trace_route (example_matcher [empty_interpretation]) (failing_request edge_walk) =
     (failing_request edge_walk,
      Inl (valhalla_exception_t 443 (Some (edge_walk_message ''edge_walk'')))) \<and>
   trace_route (example_matcher [empty_interpretation]) (failing_request map_snap) =
     (failing_request map_snap, Inl (valhalla_exception_t 442 None)) \<and>
   trace_route (example_matcher [empty_interpretation]) (failing_request walk_or_snap) =
     ((failing_request walk_or_snap)\<lparr>log_warn := [fallback_message ''walk_or_snap'']\<rparr>,
      Inl (valhalla_exception_t 442 None)) \<and>
   trace_route walking_matcher (walkable_request edge_walk) =
     (fst (route_match walking_matcher (walkable_request edge_walk)), Inr ()) \<and>
   trace_route walking_matcher (walkable_request walk_or_snap) =
     (fst (route_match walking_matcher (walkable_request walk_or_snap)), Inr ()) \<and>
   length (trip (fst (trace_route walking_matcher (walkable_request walk_or_snap)))) = 1 \<and>
   log_warn (fst (trace_route walking_matcher (walkable_request walk_or_snap))) = [] \<and>
   snd (map_match walking_matcher
          (fst (route_match walking_matcher (walkable_request walk_or_snap)))) =
     Inl std_exception"
proof -
  let ?ext = "example_matcher [empty_interpretation]"
  have name: "ShapeMatch_Enum_Name ?ext m =
      (case m of edge_walk \<Rightarrow> ''edge_walk'' | map_snap \<Rightarrow> ''map_snap''
       | walk_or_snap \<Rightarrow> ''walk_or_snap'')" for m
    by (simp add: example_matcher_def example_external_def)
  have walk: "route_match ?ext (failing_request m) = (failing_request m, Inl std_exception)" for m
    by (simp add: route_match_def example_matcher_def example_external_def)
  have snap: "map_match ?ext st = (st, Inl std_exception)" if "trace st \<noteq> []" for st
    using that
    by (simp add: map_match_def map_match_step_def example_matcher_def example_external_def
        empty_interpretation_def)
  have tr: "trace (failing_request m) \<noteq> []" for m
    by (simp add: failing_request_def matched_state_def)
  have mode: "shape_match (options (failing_request m)) = m" for m
    by (simp add: failing_request_def)
  have c: "caught std_exception"
    by (simp add: caught_def)
  have warn: "log_warn (failing_request m) = []" for m
    by (simp add: failing_request_def matched_state_def example_state_def)
  from trace_route_errors [where ext = ?ext and st = "failing_request edge_walk"
      and ?st1.0 = "failing_request edge_walk" and ?r1.0 = "Inl std_exception"]
    walk mode c name
  have 1: "trace_route ?ext (failing_request edge_walk) =
     (failing_request edge_walk,
      Inl (valhalla_exception_t 443 (Some (edge_walk_message ''edge_walk''))))"
    by simp
  from trace_route_errors [where ext = ?ext and st = "failing_request map_snap"
      and ?st1.0 = "failing_request map_snap" and ?m1.0 = "Inl std_exception"]
    snap [OF tr] mode c
  have 2: "trace_route ?ext (failing_request map_snap) =
     (failing_request map_snap, Inl (valhalla_exception_t 442 None))"
    by simp
  have "trace ((failing_request walk_or_snap)\<lparr>log_warn := [fallback_message ''walk_or_snap'']\<rparr>) \<noteq> []"
    using tr by simp
  note snap3 = snap [OF this]
  from trace_route_errors [where ext = ?ext and st = "failing_request walk_or_snap"
      and ?st1.0 = "failing_request walk_or_snap" and ?r1.0 = "Inl std_exception"]
    walk mode c name warn snap3
  have 3: "trace_route ?ext (failing_request walk_or_snap) =
     ((failing_request walk_or_snap)\<lparr>log_warn := [fallback_message ''walk_or_snap'']\<rparr>,
      Inl (valhalla_exception_t 442 None))"
    by simp
  have ok: "route_match walking_matcher (walkable_request m) =
              (fst (route_match walking_matcher (walkable_request m)), Inr ())" for m
    by (simp add: route_match_def walking_matcher_def walkable_request_def failing_request_def
        matched_state_def example_state_def example_location_def)
  have mode': "shape_match (options (walkable_request m)) = m" for m
    by (simp add: walkable_request_def failing_request_def)
  have dnt: "do_not_track (options (fst (route_match walking_matcher (walkable_request m))))" for m
    by (simp add: route_match_def walking_matcher_def walkable_request_def failing_request_def
        matched_state_def example_state_def example_location_def)
  from trace_route_errors [where ext = walking_matcher and st = "walkable_request edge_walk"
      and ?st1.0 = "fst (route_match walking_matcher (walkable_request edge_walk))"
      and ?r1.0 = "Inr ()"] ok [of edge_walk] mode' dnt
  have 4: "trace_route walking_matcher (walkable_request edge_walk) =
     (fst (route_match walking_matcher (walkable_request edge_walk)), Inr ())"
    by simp
  from trace_route_errors [where ext = walking_matcher and st = "walkable_request walk_or_snap"
      and ?st1.0 = "fst (route_match walking_matcher (walkable_request walk_or_snap))"
      and ?r1.0 = "Inr ()"] ok [of walk_or_snap] mode' dnt
  have 5: "trace_route walking_matcher (walkable_request walk_or_snap) =
     (fst (route_match walking_matcher (walkable_request walk_or_snap)), Inr ())"
    by simp
  have 6: "length (trip (fst (route_match walking_matcher (walkable_request walk_or_snap)))) = 1"
      "log_warn (fst (route_match walking_matcher (walkable_request walk_or_snap))) = []"
    by (simp_all add: route_match_def walking_matcher_def walkable_request_def failing_request_def
        matched_state_def example_state_def example_location_def)
  have "trace (fst (route_match walking_matcher (walkable_request walk_or_snap))) \<noteq> []"
    by (simp add: route_match_def walking_matcher_def walkable_request_def failing_request_def
        matched_state_def example_state_def example_location_def)
  then have 7: "snd (map_match walking_matcher
                  (fst (route_match walking_matcher (walkable_request walk_or_snap)))) =
                Inl std_exception"
    by (simp add: map_match_def map_match_step_def walking_matcher_def example_matcher_def
        example_external_def empty_interpretation_def)
  from 1 2 3 4 5 6 7 show ?thesis by simp
qed

section \<open>The multi-route assembler\<close>

text \<open>The loop over the match indices of a path stamps every location it visits and
  leaves the others as they are.\<close>

lemma set_route_index_loop_Inr:
  assumes "set_route_index_loop is r sh = Inr sh'"
  shows "length sh' = length sh \<and>
         (\<forall>j<length sh.
            Location.route_index (sh ! j) = Some r \<and> shape_index (sh ! j) = Some 4294967295 \<longrightarrow>
            Location.route_index (sh' ! j) = Some r \<and> shape_index (sh' ! j) = Some 4294967295) \<and>
         (\<forall>i \<in> set is. 0 \<le> i \<and> nat i < length sh \<and>
            Location.route_index (sh' ! nat i) = Some r \<and>
            shape_index (sh' ! nat i) = Some 4294967295) \<and>
         (\<forall>j<length sh. int j \<notin> set is \<longrightarrow> sh' ! j = sh ! j)"
  using assms
proof (induction "is" arbitrary: sh)
  case Nil
  then show ?case by simp
next
  case (Cons i rest)
  let ?sh = "sh[nat i := (sh ! nat i)\<lparr>Location.route_index := Some r,
                                       shape_index := Some 4294967295\<rparr>]"
  from Cons.prems have i: "0 \<le> i" "nat i < length sh"
    and rest: "set_route_index_loop rest r ?sh = Inr sh'"
    by (auto split: if_splits)
  from Cons.IH [OF rest] have
      len: "length sh' = length sh"
      and keep: "\<forall>j<length sh.
            Location.route_index (?sh ! j) = Some r \<and> shape_index (?sh ! j) = Some 4294967295 \<longrightarrow>
            Location.route_index (sh' ! j) = Some r \<and> shape_index (sh' ! j) = Some 4294967295"
      and new: "\<forall>i \<in> set rest. 0 \<le> i \<and> nat i < length sh \<and>
            Location.route_index (sh' ! nat i) = Some r \<and>
            shape_index (sh' ! nat i) = Some 4294967295"
      and frame: "\<forall>j<length sh. int j \<notin> set rest \<longrightarrow> sh' ! j = ?sh ! j"
    by simp_all
  have "Location.route_index (sh' ! j) = Some r \<and> shape_index (sh' ! j) = Some 4294967295"
    if "j < length sh" "Location.route_index (sh ! j) = Some r"
       "shape_index (sh ! j) = Some 4294967295" for j
    using keep that by (cases "j = nat i") (simp_all add: nth_list_update)
  moreover have "Location.route_index (sh' ! nat i) = Some r \<and>
                 shape_index (sh' ! nat i) = Some 4294967295"
    using keep i by simp
  moreover have "sh' ! j = sh ! j" if "j < length sh" "int j \<notin> set (i # rest)" for j
  proof -
    from that i have "j \<noteq> nat i" by auto
    with frame that show ?thesis by simp
  qed
  ultimately show ?case using len new i by simp
qed

text \<open>What the locations and the leg of one path are, when the body of the loop gets
  through.\<close>

lemma build_route_leg_Inr:
  assumes "build_route_leg ms p r w sh0 = Inr (sh', leg)"
  shows "snd p \<noteq> [] \<and> leg_path leg = fst p \<and>
        length sh' = length sh0 \<and>
        0 \<le> first_match_idx (hd (snd p)) \<and> nat (first_match_idx (hd (snd p))) < length sh0 \<and>
        0 \<le> last_match_idx (last (snd p)) \<and> nat (last_match_idx (last (snd p))) < length sh0 \<and>
        leg_origin leg = sh' ! nat (first_match_idx (hd (snd p))) \<and>
        leg_destination leg = sh' ! nat (last_match_idx (last (snd p))) \<and>
        shape_index (sh' ! nat (last_match_idx (last (snd p)))) = Some (w + 1) \<and>
        shape_index (sh' ! nat (first_match_idx (hd (snd p)))) =
          Some (if first_match_idx (hd (snd p)) = last_match_idx (last (snd p))
                then w + 1 else w) \<and>
        (\<forall>i. first_match_idx (hd (snd p)) \<le> i \<and> i \<le> last_match_idx (last (snd p)) \<longrightarrow>
           Location.route_index (sh' ! nat i) = Some r) \<and>
        (\<forall>i. first_match_idx (hd (snd p)) < i \<and> i < last_match_idx (last (snd p)) \<longrightarrow>
           shape_index (sh' ! nat i) = Some 4294967295) \<and>
        (\<forall>j<length sh0.
           \<not> (first_match_idx (hd (snd p)) \<le> int j \<and> int j \<le> last_match_idx (last (snd p))) \<and>
           j \<noteq> nat (first_match_idx (hd (snd p))) \<and> j \<noteq> nat (last_match_idx (last (snd p))) \<longrightarrow>
           sh' ! j = sh0 ! j)"
proof -
  let ?oi = "first_match_idx (hd (snd p))"
  let ?di = "last_match_idx (last (snd p))"
  from assms have ne: "snd p \<noteq> []"
    by (auto simp: build_route_leg_def split: if_splits)
  from assms ne obtain sh where
      sh: "set_route_index_loop [?oi..?di] r sh0 = Inr sh"
    by (auto simp: build_route_leg_def Let_def split: sum.splits)
  from assms ne sh have range: "0 \<le> ?oi" "nat ?oi < length sh" "0 \<le> ?di" "nat ?di < length sh"
    by (auto simp: build_route_leg_def Let_def split: if_splits)
  from assms ne sh range obtain origin_m dest_m where
      m: "match_at ms ?oi = Inr origin_m" "match_at ms ?di = Inr dest_m"
    by (auto simp: build_route_leg_def Let_def split: sum.splits)
  define sh1 where "sh1 = sh[nat ?oi := (sh ! nat ?oi)\<lparr>shape_index := Some w\<rparr>]"
  define sh2 where "sh2 = sh1[nat ?di := (sh1 ! nat ?di)\<lparr>shape_index := Some (w + 1)\<rparr>]"
  define sh3 where "sh3 = sh2[nat ?oi := add_path_edge (sh2 ! nat ?oi) origin_m]"
  define sh4 where "sh4 = sh3[nat ?di := add_path_edge (sh3 ! nat ?di) dest_m]"
  have res: "sh' = sh4 \<and> leg = TripLegBuilder_Build (fst p) (sh4 ! nat ?oi) (sh4 ! nat ?di) None"
    using assms ne sh range m
    unfolding sh4_def sh3_def sh2_def sh1_def
    by (auto simp: build_route_leg_def Let_def)
  note loop = set_route_index_loop_Inr [OF sh]
  from loop have len0: "length sh = length sh0" by simp
  have lens: "length sh1 = length sh" "length sh2 = length sh" "length sh3 = length sh"
      "length sh4 = length sh"
    by (simp_all add: sh1_def sh2_def sh3_def sh4_def)
  have dest_shape: "shape_index (sh4 ! nat ?di) = Some (w + 1)"
    using range lens
    by (simp add: sh4_def sh3_def sh2_def add_path_edge_def nth_list_update)
  have orig_shape: "shape_index (sh4 ! nat ?oi) = Some (if ?oi = ?di then w + 1 else w)"
    using range lens
    by (auto simp: sh4_def sh3_def sh2_def sh1_def add_path_edge_def nth_list_update)
  have ri: "Location.route_index (sh4 ! j) = Location.route_index (sh ! j)" if "j < length sh" for j
  proof -
    have "Location.route_index (sh1 ! j) = Location.route_index (sh ! j)"
      using that range by (simp add: sh1_def nth_list_update)
    moreover have "Location.route_index (sh2 ! j) = Location.route_index (sh1 ! j)"
      using that lens range by (simp add: sh2_def nth_list_update)
    moreover have "Location.route_index (sh3 ! j) = Location.route_index (sh2 ! j)"
      using that lens range by (simp add: sh3_def add_path_edge_def nth_list_update)
    moreover have "Location.route_index (sh4 ! j) = Location.route_index (sh3 ! j)"
      using that lens range by (simp add: sh4_def add_path_edge_def nth_list_update)
    ultimately show ?thesis by simp
  qed
  have other: "sh4 ! j = sh ! j" if "j \<noteq> nat ?oi" "j \<noteq> nat ?di" for j
    using that by (simp add: sh4_def sh3_def sh2_def sh1_def)
  have route_idx: "Location.route_index (sh4 ! nat i) = Some r" if "?oi \<le> i" "i \<le> ?di" for i
  proof -
    from that have "i \<in> set [?oi..?di]" by simp
    with loop have "nat i < length sh0" "Location.route_index (sh ! nat i) = Some r"
      by simp_all
    with ri len0 show ?thesis by simp
  qed
  have between: "shape_index (sh4 ! nat i) = Some 4294967295" if "?oi < i" "i < ?di" for i
  proof -
    from that have "i \<in> set [?oi..?di]" by simp
    with loop have "shape_index (sh ! nat i) = Some 4294967295" by simp
    moreover from that range have "nat i \<noteq> nat ?oi" "nat i \<noteq> nat ?di" by simp_all
    ultimately show ?thesis using other by simp
  qed
  have frame: "sh4 ! j = sh0 ! j"
    if "j < length sh0" "\<not> (?oi \<le> int j \<and> int j \<le> ?di)" "j \<noteq> nat ?oi" "j \<noteq> nat ?di" for j
  proof -
    from that(2) have "int j \<notin> set [?oi..?di]" by simp
    with loop that(1) have "sh ! j = sh0 ! j" by simp
    with other that(3,4) show ?thesis by simp
  qed
  have "leg_path leg = fst p" "leg_destination leg = sh4 ! nat ?di"
      "leg_origin leg = sh4 ! nat ?oi"
    using res by (simp_all add: TripLegBuilder_Build_def)
  moreover from res have "sh' = sh4" by simp
  ultimately show ?thesis
    using ne dest_shape orig_shape route_idx between frame range lens len0 by simp
qed

lemma build_route_path_Inr:
  assumes "build_route_path ms p (st, v) = Inr (st', v')"
  shows "cout st' = cout st @ cout_path p \<and>
     way_point_index v' = (case route v of None \<Rightarrow> 0 | Some r \<Rightarrow> way_point_index v) + 1 \<and>
     route_index v' = route_index v + (if discontinuity (last (snd p)) then 1 else 0) \<and>
     route v' = (if discontinuity (last (snd p)) then None
                 else Some (case route v of None \<Rightarrow> length (trip st) | Some r \<Rightarrow> r)) \<and>
     (\<exists>leg.
        build_route_leg ms p (route_index v)
          (case route v of None \<Rightarrow> 0 | Some r \<Rightarrow> way_point_index v) (shape (options st)) =
          Inr (shape (options st'), leg) \<and>
        trip st' = (case route v of
                      None \<Rightarrow> trip st @ [[leg]]
                    | Some r \<Rightarrow> (trip st)[r := trip st ! r @ [leg]]))"
  using assms
  by (cases "route v")
     (auto simp: build_route_path_def Let_def split: sum.splits prod.splits if_splits)

lemma build_route_paths_append:
  "build_route_paths ms (xs @ ys) sv =
     (case build_route_paths ms xs sv of
        Inl e \<Rightarrow> Inl e
      | Inr sv1 \<Rightarrow> build_route_paths ms ys sv1)"
  by (induction xs arbitrary: sv) (auto split: sum.splits)

lemma legs_since_open_closed:
  "ps = [] \<or> closes_route (last ps) \<Longrightarrow> legs_since_open ps = 0"
  by (cases ps rule: rev_cases) auto

text \<open>
  The state of the loop after the paths \<open>ps\<close>: the counters, the output, the routes of
  the trip, and for every path \<open>k\<close> of \<open>ps\<close> the states before and after its
  iteration, with the leg built from the locations of the request in between.
\<close>

lemma build_route_paths_invariant:
  assumes "build_route_paths ms ps (st, build_route_vars_init) = Inr (st', v')"
  shows "route_index v' = routes_closed ps \<and>
         cout st' = cout st @ concat (map cout_path ps) \<and>
         take (length (trip st)) (trip st') = trip st \<and>
         (if ps = [] \<or> closes_route (last ps)
          then route v' = None \<and> length (trip st') = length (trip st) + routes_closed ps
          else route v' = Some (length (trip st) + routes_closed ps) \<and>
               length (trip st') = length (trip st) + routes_closed ps + 1 \<and>
               way_point_index v' = legs_since_open ps \<and>
               length (trip st' ! (length (trip st) + routes_closed ps)) = legs_since_open ps) \<and>
         (\<forall>k<length ps.
            length (trip st) + routes_closed (take k ps) < length (trip st') \<and>
            legs_since_open (take k ps) <
              length (trip st' ! (length (trip st) + routes_closed (take k ps))) \<and>
            (\<exists>st0 v0 st1 v1.
               build_route_paths ms (take k ps) (st, build_route_vars_init) = Inr (st0, v0) \<and>
               build_route_paths ms (take (Suc k) ps) (st, build_route_vars_init) = Inr (st1, v1) \<and>
               way_point_index v1 = legs_since_open (take k ps) + 1 \<and>
               build_route_leg ms (ps ! k) (routes_closed (take k ps))
                 (legs_since_open (take k ps)) (shape (options st0)) =
               Inr (shape (options st1),
                    trip st' ! (length (trip st) + routes_closed (take k ps)) !
                      legs_since_open (take k ps))))"
  using assms
proof (induction ps arbitrary: st' v' rule: rev_induct)
  case Nil
  then show ?case by (auto simp: build_route_vars_init_def)
next
  case (snoc p ps)
  let ?n = "length (trip st)"
  from snoc.prems obtain st1 v1 where
      before: "build_route_paths ms ps (st, build_route_vars_init) = Inr (st1, v1)"
      and step: "build_route_path ms p (st1, v1) = Inr (st', v')"
    by (auto simp: build_route_paths_append split: sum.splits)
  note IH = snoc.IH [OF before]
  from IH have ri1: "route_index v1 = routes_closed ps"
    and cout1: "cout st1 = cout st @ concat (map cout_path ps)"
    and take1: "take ?n (trip st1) = trip st"
    by simp_all
  note legs1 = IH [THEN conjunct2, THEN conjunct2, THEN conjunct2, THEN conjunct2]
  let ?w = "case route v1 of None \<Rightarrow> 0 | Some r \<Rightarrow> way_point_index v1"
  from build_route_path_Inr [OF step] obtain leg where
      cout': "cout st' = cout st1 @ cout_path p"
      and w': "way_point_index v' = ?w + 1"
      and ri': "route_index v' = route_index v1 + (if closes_route p then 1 else 0)"
      and r': "route v' = (if closes_route p then None
                 else Some (case route v1 of None \<Rightarrow> length (trip st1) | Some r \<Rightarrow> r))"
      and leg: "build_route_leg ms p (route_index v1) ?w (shape (options st1)) =
                  Inr (shape (options st'), leg)"
      and trip': "trip st' = (case route v1 of
                      None \<Rightarrow> trip st1 @ [[leg]]
                    | Some r \<Rightarrow> (trip st1)[r := trip st1 ! r @ [leg]])"
    by blast
  have len_n: "?n \<le> length (trip st1)"
    using take1 by (metis length_take min.cobounded1 min.commute)
  have old_k: "\<exists>st0 v0 st2 v2.
               build_route_paths ms (take k (ps @ [p])) (st, build_route_vars_init) = Inr (st0, v0) \<and>
               build_route_paths ms (take (Suc k) (ps @ [p])) (st, build_route_vars_init) =
                 Inr (st2, v2) \<and>
               way_point_index v2 = legs_since_open (take k (ps @ [p])) + 1 \<and>
               build_route_leg ms ((ps @ [p]) ! k) (routes_closed (take k (ps @ [p])))
                 (legs_since_open (take k (ps @ [p]))) (shape (options st0)) =
               Inr (shape (options st2), l)"
    if "k < length ps"
      and "\<exists>st0 v0 st2 v2.
               build_route_paths ms (take k ps) (st, build_route_vars_init) = Inr (st0, v0) \<and>
               build_route_paths ms (take (Suc k) ps) (st, build_route_vars_init) = Inr (st2, v2) \<and>
               way_point_index v2 = legs_since_open (take k ps) + 1 \<and>
               build_route_leg ms (ps ! k) (routes_closed (take k ps))
                 (legs_since_open (take k ps)) (shape (options st0)) =
               Inr (shape (options st2), l)" for k l
    using that by (simp add: nth_append)
  show ?case
  proof (cases "ps = [] \<or> closes_route (last ps)")
    case True
    with IH have r1: "route v1 = None" and len1: "length (trip st1) = ?n + routes_closed ps"
      by (simp_all split: if_splits)
    from True have w0: "legs_since_open ps = 0" by (rule legs_since_open_closed)
    from trip' r1 have trip: "trip st' = trip st1 @ [[leg]]" by simp
    from leg r1 ri1 w0 have leg0:
      "build_route_leg ms p (routes_closed ps) (legs_since_open ps) (shape (options st1)) =
         Inr (shape (options st'), leg)"
      by simp
    from w' r1 w0 have w2: "way_point_index v' = legs_since_open ps + 1" by simp
    have old: "?n + routes_closed (take k (ps @ [p])) < length (trip st') \<and>
            legs_since_open (take k (ps @ [p])) <
              length (trip st' ! (?n + routes_closed (take k (ps @ [p])))) \<and>
            (\<exists>st0 v0 st2 v2.
               build_route_paths ms (take k (ps @ [p])) (st, build_route_vars_init) = Inr (st0, v0) \<and>
               build_route_paths ms (take (Suc k) (ps @ [p])) (st, build_route_vars_init) =
                 Inr (st2, v2) \<and>
               way_point_index v2 = legs_since_open (take k (ps @ [p])) + 1 \<and>
               build_route_leg ms ((ps @ [p]) ! k) (routes_closed (take k (ps @ [p])))
                 (legs_since_open (take k (ps @ [p]))) (shape (options st0)) =
               Inr (shape (options st2),
                    trip st' ! (?n + routes_closed (take k (ps @ [p]))) !
                      legs_since_open (take k (ps @ [p]))))"
      if k: "k < length (ps @ [p])" for k
    proof (cases "k < length ps")
      case True
      with legs1 have a: "?n + routes_closed (take k ps) < length (trip st1)"
        and b: "legs_since_open (take k ps) < length (trip st1 ! (?n + routes_closed (take k ps)))"
        and c: "\<exists>st0 v0 st2 v2.
               build_route_paths ms (take k ps) (st, build_route_vars_init) = Inr (st0, v0) \<and>
               build_route_paths ms (take (Suc k) ps) (st, build_route_vars_init) = Inr (st2, v2) \<and>
               way_point_index v2 = legs_since_open (take k ps) + 1 \<and>
               build_route_leg ms (ps ! k) (routes_closed (take k ps))
                 (legs_since_open (take k ps)) (shape (options st0)) =
               Inr (shape (options st2),
                    trip st1 ! (?n + routes_closed (take k ps)) ! legs_since_open (take k ps))"
        by simp_all
      from a trip have same: "trip st' ! (?n + routes_closed (take k ps)) =
                              trip st1 ! (?n + routes_closed (take k ps))"
        by (simp add: nth_append)
      from old_k [OF True c] a b True trip same show ?thesis
        by (simp add: nth_append)
    next
      case False
      with k have kk: "k = length ps" by simp
      have "\<exists>st0 v0 st2 v2.
               build_route_paths ms ps (st, build_route_vars_init) = Inr (st0, v0) \<and>
               build_route_paths ms (ps @ [p]) (st, build_route_vars_init) = Inr (st2, v2) \<and>
               way_point_index v2 = legs_since_open ps + 1 \<and>
               build_route_leg ms p (routes_closed ps) (legs_since_open ps) (shape (options st0)) =
               Inr (shape (options st2), leg)"
        using before snoc.prems w2 leg0 by blast
      with kk trip len1 w0 show ?thesis
        by (simp add: nth_append)
    qed
    from ri' ri1 have "route_index v' = routes_closed (ps @ [p])" by simp
    moreover from cout' cout1 have "cout st' = cout st @ concat (map cout_path (ps @ [p]))"
      by simp
    moreover from trip take1 len_n have "take ?n (trip st') = trip st" by simp
    moreover have "(if ps @ [p] = [] \<or> closes_route (last (ps @ [p]))
          then route v' = None \<and> length (trip st') = ?n + routes_closed (ps @ [p])
          else route v' = Some (?n + routes_closed (ps @ [p])) \<and>
               length (trip st') = ?n + routes_closed (ps @ [p]) + 1 \<and>
               way_point_index v' = legs_since_open (ps @ [p]) \<and>
               length (trip st' ! (?n + routes_closed (ps @ [p]))) = legs_since_open (ps @ [p]))"
      using r' w' r1 len1 trip w0 by (auto simp: nth_append)
    ultimately show ?thesis using old by blast
  next
    case False
    with IH have r1: "route v1 = Some (?n + routes_closed ps)"
      and len1: "length (trip st1) = ?n + routes_closed ps + 1"
      and w1: "way_point_index v1 = legs_since_open ps"
      and lr1: "length (trip st1 ! (?n + routes_closed ps)) = legs_since_open ps"
      by (simp_all split: if_splits)
    let ?r = "?n + routes_closed ps"
    from trip' r1 have trip: "trip st' = (trip st1)[?r := trip st1 ! ?r @ [leg]]" by simp
    from leg r1 ri1 w1 have leg0:
      "build_route_leg ms p (routes_closed ps) (legs_since_open ps) (shape (options st1)) =
         Inr (shape (options st'), leg)"
      by simp
    from w' r1 w1 have w2: "way_point_index v' = legs_since_open ps + 1" by simp
    have old: "?n + routes_closed (take k (ps @ [p])) < length (trip st') \<and>
            legs_since_open (take k (ps @ [p])) <
              length (trip st' ! (?n + routes_closed (take k (ps @ [p])))) \<and>
            (\<exists>st0 v0 st2 v2.
               build_route_paths ms (take k (ps @ [p])) (st, build_route_vars_init) = Inr (st0, v0) \<and>
               build_route_paths ms (take (Suc k) (ps @ [p])) (st, build_route_vars_init) =
                 Inr (st2, v2) \<and>
               way_point_index v2 = legs_since_open (take k (ps @ [p])) + 1 \<and>
               build_route_leg ms ((ps @ [p]) ! k) (routes_closed (take k (ps @ [p])))
                 (legs_since_open (take k (ps @ [p]))) (shape (options st0)) =
               Inr (shape (options st2),
                    trip st' ! (?n + routes_closed (take k (ps @ [p]))) !
                      legs_since_open (take k (ps @ [p]))))"
      if k: "k < length (ps @ [p])" for k
    proof (cases "k < length ps")
      case True
      with legs1 have a: "?n + routes_closed (take k ps) < length (trip st1)"
        and b: "legs_since_open (take k ps) < length (trip st1 ! (?n + routes_closed (take k ps)))"
        and c: "\<exists>st0 v0 st2 v2.
               build_route_paths ms (take k ps) (st, build_route_vars_init) = Inr (st0, v0) \<and>
               build_route_paths ms (take (Suc k) ps) (st, build_route_vars_init) = Inr (st2, v2) \<and>
               way_point_index v2 = legs_since_open (take k ps) + 1 \<and>
               build_route_leg ms (ps ! k) (routes_closed (take k ps))
                 (legs_since_open (take k ps)) (shape (options st0)) =
               Inr (shape (options st2),
                    trip st1 ! (?n + routes_closed (take k ps)) ! legs_since_open (take k ps))"
        by simp_all
      from a b trip len1 have same:
        "trip st' ! (?n + routes_closed (take k ps)) ! legs_since_open (take k ps) =
         trip st1 ! (?n + routes_closed (take k ps)) ! legs_since_open (take k ps)"
        and b': "legs_since_open (take k ps) < length (trip st' ! (?n + routes_closed (take k ps)))"
        by (cases "routes_closed (take k ps) = routes_closed ps";
            simp add: nth_append nth_list_update)+
      from old_k [OF True c] a b' True trip same show ?thesis
        by simp
    next
      case False
      with k have kk: "k = length ps" by simp
      have "\<exists>st0 v0 st2 v2.
               build_route_paths ms ps (st, build_route_vars_init) = Inr (st0, v0) \<and>
               build_route_paths ms (ps @ [p]) (st, build_route_vars_init) = Inr (st2, v2) \<and>
               way_point_index v2 = legs_since_open ps + 1 \<and>
               build_route_leg ms p (routes_closed ps) (legs_since_open ps) (shape (options st0)) =
               Inr (shape (options st2), leg)"
        using before snoc.prems w2 leg0 by blast
      with kk trip len1 lr1 show ?thesis
        by (simp add: nth_append)
    qed
    from ri' ri1 have "route_index v' = routes_closed (ps @ [p])" by simp
    moreover from cout' cout1 have "cout st' = cout st @ concat (map cout_path (ps @ [p]))"
      by simp
    moreover from trip take1 len1 have "take ?n (trip st') = trip st"
      by (simp add: take_update_cancel)
    moreover have "(if ps @ [p] = [] \<or> closes_route (last (ps @ [p]))
          then route v' = None \<and> length (trip st') = ?n + routes_closed (ps @ [p])
          else route v' = Some (?n + routes_closed (ps @ [p])) \<and>
               length (trip st') = ?n + routes_closed (ps @ [p]) + 1 \<and>
               way_point_index v' = legs_since_open (ps @ [p]) \<and>
               length (trip st' ! (?n + routes_closed (ps @ [p]))) = legs_since_open (ps @ [p]))"
      using r' w' r1 len1 trip w1 lr1 by (auto simp: nth_append)
    ultimately show ?thesis using old by blast
  qed
qed

lemma routes_closed_butlast:
  "ps \<noteq> [] \<Longrightarrow>
   routes_closed ps = routes_closed (butlast ps) + (if closes_route (last ps) then 1 else 0)"
  by (cases ps rule: rev_cases) auto


text \<open>
  C5, as stated, fails. For an empty list of paths \<open>build_route\<close> appends no route, where
  the claim counts one. For a path whose first and last match are the same match, origin
  and destination are the same location of the request: it is given shape index 0 and then
  1, so the origin of the leg shows shape index 1, like its destination.
\<close>

theorem build_route_single_match:
  "build_route [] split_matches (example_state Options_trace_route 5) =
     (example_state Options_trace_route 5, Inr ()) \<and>
   snd (build_route [single_match_path] [example_match 1 False False]
          (example_state Options_trace_route 1)) = Inr () \<and>
   map shape_index (shape (options (fst (build_route [single_match_path]
     [example_match 1 False False] (example_state Options_trace_route 1))))) = [Some 1] \<and>
   map (map (\<lambda>leg. (shape_index (leg_origin leg), shape_index (leg_destination leg))))
     (trip (fst (build_route [single_match_path] [example_match 1 False False]
        (example_state Options_trace_route 1)))) = [[(Some 1, Some 1)]]"
  by (simp add: build_route_defs single_match_path_def example_defs Let_def)

text \<open>
  C5, as amended. When \<open>build_route\<close> returns, it has appended no route for an empty list
  of paths, and otherwise one route more than there are discontinuity-flagged paths before
  the last one; the routes the trip had are kept. \<open>route_index\<close> ends as the number of
  flagged paths. For path \<open>k\<close>, let \<open>st0, v0\<close> and \<open>st1, v1\<close> be the request and the
  variables of the loop before and after its iteration, \<open>r\<close> the number of flagged paths
  before it and \<open>w\<close> the number of paths since the last flagged one. Then \<open>route_index\<close>
  is \<open>r\<close> before the iteration and one more after it exactly when the path is flagged;
  \<open>way_point_index\<close> is \<open>w + 1\<close> after it; when \<open>k\<close> is the first path or follows a
  flagged one, no route is open and \<open>w\<close> is 0, and otherwise the route \<open>r\<close> is open,
  \<open>way_point_index\<close> is \<open>w\<close> and \<open>w\<close> is one more than for the path before. The leg
  of the path is leg \<open>w\<close> of the appended route \<open>r\<close>; its origin and destination are
  copies of the request's shape locations at the path's first and last match index as the
  iteration leaves them: the destination with shape index \<open>w + 1\<close>, the origin with
  \<open>w\<close>, or \<open>w + 1\<close> where both are the same location. Every shape location from the
  first to the last match index has route index \<open>r\<close>, those strictly in between have
  shape index \<open>2^32 - 1\<close>, and the other locations are as they were before the iteration.
\<close>

theorem build_route_routes:
  assumes "build_route paths ms st = (st', Inr ())"
  shows "length (trip st') =
           length (trip st) + (if paths = [] then 0 else routes_closed (butlast paths) + 1) \<and>
         take (length (trip st)) (trip st') = trip st \<and>
         (\<exists>v'. build_route_paths ms paths (st, build_route_vars_init) = Inr (st', v') \<and>
               route_index v' = routes_closed paths) \<and>
         (\<forall>k<length paths.
            \<exists>st0 v0 st1 v1.
              build_route_paths ms (take k paths) (st, build_route_vars_init) = Inr (st0, v0) \<and>
              build_route_paths ms (take (Suc k) paths) (st, build_route_vars_init) =
                Inr (st1, v1) \<and>
              (let r = routes_closed (take k paths);
                   w = legs_since_open (take k paths);
                   oi = first_match_idx (hd (snd (paths ! k)));
                   di = last_match_idx (last (snd (paths ! k)));
                   sh0 = shape (options st0);
                   sh1 = shape (options st1)
               in route_index v0 = r \<and>
                  route_index v1 = r + (if closes_route (paths ! k) then 1 else 0) \<and>
                  way_point_index v1 = w + 1 \<and>
                  (k = 0 \<or> closes_route (paths ! (k - 1)) \<longrightarrow> route v0 = None \<and> w = 0) \<and>
                  (0 < k \<and> \<not> closes_route (paths ! (k - 1)) \<longrightarrow>
                     route v0 = Some (length (trip st) + r) \<and> way_point_index v0 = w \<and>
                     w = legs_since_open (take (k - 1) paths) + 1 \<and>
                     r = routes_closed (take (k - 1) paths)) \<and>
                  length (trip st) + r < length (trip st') \<and>
                  w < length (trip st' ! (length (trip st) + r)) \<and>
                  leg_path (trip st' ! (length (trip st) + r) ! w) = fst (paths ! k) \<and>
                  leg_origin (trip st' ! (length (trip st) + r) ! w) = sh1 ! nat oi \<and>
                  leg_destination (trip st' ! (length (trip st) + r) ! w) = sh1 ! nat di \<and>
                  length sh1 = length sh0 \<and>
                  0 \<le> oi \<and> nat oi < length sh0 \<and> 0 \<le> di \<and> nat di < length sh0 \<and>
                  shape_index (sh1 ! nat di) = Some (w + 1) \<and>
                  shape_index (sh1 ! nat oi) = Some (if oi = di then w + 1 else w) \<and>
                  (\<forall>i. oi \<le> i \<and> i \<le> di \<longrightarrow> Location.route_index (sh1 ! nat i) = Some r) \<and>
                  (\<forall>i. oi < i \<and> i < di \<longrightarrow> shape_index (sh1 ! nat i) = Some 4294967295) \<and>
                  (\<forall>j<length sh0.
                     \<not> (oi \<le> int j \<and> int j \<le> di) \<and> j \<noteq> nat oi \<and> j \<noteq> nat di \<longrightarrow>
                     sh1 ! j = sh0 ! j)))"
proof -
  let ?n = "length (trip st)"
  from assms obtain v' where
      loop: "build_route_paths ms paths (st, build_route_vars_init) = Inr (st', v')"
    by (auto simp: build_route_def split: sum.splits)
  note inv = build_route_paths_invariant [OF loop]
  note inv_ri = inv [THEN conjunct1]
  note inv_take = inv [THEN conjunct2, THEN conjunct2, THEN conjunct1]
  note inv_len = inv [THEN conjunct2, THEN conjunct2, THEN conjunct2, THEN conjunct1]
  note inv_legs = inv [THEN conjunct2, THEN conjunct2, THEN conjunct2, THEN conjunct2]
  have "length (trip st') = ?n + (if paths = [] then 0 else routes_closed (butlast paths) + 1)"
  proof (cases "paths = []")
    case True
    with inv_len show ?thesis by simp
  next
    case ne: False
    show ?thesis
    proof (cases "closes_route (last paths)")
      case True
      with inv_len have "length (trip st') = ?n + routes_closed paths" by simp
      with True ne show ?thesis by (simp add: routes_closed_butlast)
    next
      case False
      with inv_len ne have "length (trip st') = ?n + routes_closed paths + 1" by simp
      with False ne show ?thesis by (simp add: routes_closed_butlast)
    qed
  qed
  moreover note inv_take
  moreover from loop inv_ri
  have "\<exists>v'. build_route_paths ms paths (st, build_route_vars_init) = Inr (st', v') \<and>
             route_index v' = routes_closed paths"
    by blast
  moreover have "\<exists>st0 v0 st1 v1.
              build_route_paths ms (take k paths) (st, build_route_vars_init) = Inr (st0, v0) \<and>
              build_route_paths ms (take (Suc k) paths) (st, build_route_vars_init) =
                Inr (st1, v1) \<and>
              (let r = routes_closed (take k paths);
                   w = legs_since_open (take k paths);
                   oi = first_match_idx (hd (snd (paths ! k)));
                   di = last_match_idx (last (snd (paths ! k)));
                   sh0 = shape (options st0);
                   sh1 = shape (options st1)
               in route_index v0 = r \<and>
                  route_index v1 = r + (if closes_route (paths ! k) then 1 else 0) \<and>
                  way_point_index v1 = w + 1 \<and>
                  (k = 0 \<or> closes_route (paths ! (k - 1)) \<longrightarrow> route v0 = None \<and> w = 0) \<and>
                  (0 < k \<and> \<not> closes_route (paths ! (k - 1)) \<longrightarrow>
                     route v0 = Some (length (trip st) + r) \<and> way_point_index v0 = w \<and>
                     w = legs_since_open (take (k - 1) paths) + 1 \<and>
                     r = routes_closed (take (k - 1) paths)) \<and>
                  length (trip st) + r < length (trip st') \<and>
                  w < length (trip st' ! (length (trip st) + r)) \<and>
                  leg_path (trip st' ! (length (trip st) + r) ! w) = fst (paths ! k) \<and>
                  leg_origin (trip st' ! (length (trip st) + r) ! w) = sh1 ! nat oi \<and>
                  leg_destination (trip st' ! (length (trip st) + r) ! w) = sh1 ! nat di \<and>
                  length sh1 = length sh0 \<and>
                  0 \<le> oi \<and> nat oi < length sh0 \<and> 0 \<le> di \<and> nat di < length sh0 \<and>
                  shape_index (sh1 ! nat di) = Some (w + 1) \<and>
                  shape_index (sh1 ! nat oi) = Some (if oi = di then w + 1 else w) \<and>
                  (\<forall>i. oi \<le> i \<and> i \<le> di \<longrightarrow> Location.route_index (sh1 ! nat i) = Some r) \<and>
                  (\<forall>i. oi < i \<and> i < di \<longrightarrow> shape_index (sh1 ! nat i) = Some 4294967295) \<and>
                  (\<forall>j<length sh0.
                     \<not> (oi \<le> int j \<and> int j \<le> di) \<and> j \<noteq> nat oi \<and> j \<noteq> nat di \<longrightarrow>
                     sh1 ! j = sh0 ! j))"
    if k: "k < length paths" for k
  proof -
    let ?r = "routes_closed (take k paths)"
    let ?w = "legs_since_open (take k paths)"
    from inv_legs k obtain st0 v0 st1 v1 where
        pos: "?n + ?r < length (trip st')" "?w < length (trip st' ! (?n + ?r))"
        and run0: "build_route_paths ms (take k paths) (st, build_route_vars_init) = Inr (st0, v0)"
        and run1: "build_route_paths ms (take (Suc k) paths) (st, build_route_vars_init) =
                     Inr (st1, v1)"
        and w1: "way_point_index v1 = ?w + 1"
        and leg: "build_route_leg ms (paths ! k) ?r ?w (shape (options st0)) =
                    Inr (shape (options st1), trip st' ! (?n + ?r) ! ?w)"
      by blast
    note inv0 = build_route_paths_invariant [OF run0]
    note inv1 = build_route_paths_invariant [OF run1]
    from inv0 have ri0: "route_index v0 = ?r" by simp
    have split: "take (Suc k) paths = take k paths @ [paths ! k]"
      using k by (simp add: take_Suc_conv_app_nth)
    from inv1 [THEN conjunct1] have ri1:
      "route_index v1 = ?r + (if closes_route (paths ! k) then 1 else 0)"
      unfolding split by simp
    note open0 = inv0 [THEN conjunct2, THEN conjunct2, THEN conjunct2, THEN conjunct1]
    have prev: "take k paths = take (k - 1) paths @ [paths ! (k - 1)]" if "0 < k"
      using that k by (cases k) (simp_all add: take_Suc_conv_app_nth)
    have last_k: "last (take k paths) = paths ! (k - 1)" "take k paths \<noteq> []" if "0 < k"
    proof -
      from prev [OF that] have "last (take k paths) = last (take (k - 1) paths @ [paths ! (k - 1)])"
        by simp
      then show "last (take k paths) = paths ! (k - 1)" by simp
      from that k show "take k paths \<noteq> []" by auto
    qed
    have closed: "route v0 = None \<and> ?w = 0" if "k = 0 \<or> closes_route (paths ! (k - 1))"
    proof -
      from that last_k have c: "take k paths = [] \<or> closes_route (last (take k paths))"
        by (cases "k = 0") simp_all
      with open0 have "route v0 = None" by simp
      moreover from c have "?w = 0" by (rule legs_since_open_closed)
      ultimately show ?thesis by simp
    qed
    have opened: "route v0 = Some (?n + ?r) \<and> way_point_index v0 = ?w \<and>
                  ?w = legs_since_open (take (k - 1) paths) + 1 \<and>
                  ?r = routes_closed (take (k - 1) paths)"
      if "0 < k \<and> \<not> closes_route (paths ! (k - 1))"
    proof -
      from that last_k have c: "\<not> (take k paths = [] \<or> closes_route (last (take k paths)))"
        by simp
      with open0 have "route v0 = Some (?n + ?r)" "way_point_index v0 = ?w"
        by simp_all
      moreover from that prev have "take k paths = take (k - 1) paths @ [paths ! (k - 1)]"
        by simp
      with that have "?w = legs_since_open (take (k - 1) paths) + 1"
          "?r = routes_closed (take (k - 1) paths)"
        by simp_all
      ultimately show ?thesis by simp
    qed
    note L = build_route_leg_Inr [OF leg]
    from run0 run1 ri0 ri1 w1 closed opened pos L show ?thesis
      unfolding Let_def by blast
  qed
  ultimately show ?thesis by blast
qed

text \<open>Three paths, the second flagged: two routes, and the leg of the third path is the
  first leg of the second route; the request's shape locations 3 and 4 end with shape
  indices 0 and 1 and route index 1, and the leg has copies of them.\<close>

theorem build_route_routes_witness:
  "length (trip (fst (build_route split_paths split_matches
      (example_state Options_trace_route 5)))) = 2 \<and>
   shape_index (shape (options (fst (build_route split_paths split_matches
      (example_state Options_trace_route 5)))) ! 3) = Some 0 \<and>
   shape_index (shape (options (fst (build_route split_paths split_matches
      (example_state Options_trace_route 5)))) ! 4) = Some 1 \<and>
   Location.route_index (shape (options (fst (build_route split_paths split_matches
      (example_state Options_trace_route 5)))) ! 3) = Some 1 \<and>
   Location.route_index (shape (options (fst (build_route split_paths split_matches
      (example_state Options_trace_route 5)))) ! 4) = Some 1 \<and>
   leg_origin (trip (fst (build_route split_paths split_matches
      (example_state Options_trace_route 5))) ! 1 ! 0) =
     shape (options (fst (build_route split_paths split_matches
      (example_state Options_trace_route 5)))) ! 3 \<and>
   leg_destination (trip (fst (build_route split_paths split_matches
      (example_state Options_trace_route 5))) ! 1 ! 0) =
     shape (options (fst (build_route split_paths split_matches
      (example_state Options_trace_route 5)))) ! 4"
proof -
  let ?st = "example_state Options_trace_route 5"
  let ?B = "build_route split_paths split_matches ?st"
  have 1: "?B = (fst ?B, Inr ())"
    by (simp add: build_route_defs split_paths_def split_matches_def example_defs Let_def)
  have 3: "trip ?st = []" "length split_paths = 3" "split_paths \<noteq> []"
      "routes_closed (butlast split_paths) = 1"
      "routes_closed (take 2 split_paths) = 1" "legs_since_open (take 2 split_paths) = 0"
      "first_match_idx (hd (snd (split_paths ! 2))) = 3"
      "last_match_idx (last (snd (split_paths ! 2))) = 4"
      "take (Suc 2) split_paths = split_paths"
    by (simp_all add: split_paths_def example_defs)
  note inst = build_route_routes [OF 1]
  from inst [THEN conjunct1] 3 have len: "length (trip (fst ?B)) = 2"
    by simp
  from inst [THEN conjunct2, THEN conjunct2, THEN conjunct1] obtain v' where
      run: "build_route_paths split_matches split_paths (?st, build_route_vars_init) =
              Inr (fst ?B, v')"
    by blast
  from inst [THEN conjunct2, THEN conjunct2, THEN conjunct2, rule_format, of 2] 3(2)
  obtain st0 v0 st1 v1 where
      run1: "build_route_paths split_matches (take (Suc 2) split_paths)
               (?st, build_route_vars_init) = Inr (st1, v1)"
      and facts: "leg_origin (trip (fst ?B) !
                     (length (trip ?st) + routes_closed (take 2 split_paths)) !
                     legs_since_open (take 2 split_paths)) =
                  shape (options st1) ! nat (first_match_idx (hd (snd (split_paths ! 2))))"
        "leg_destination (trip (fst ?B) !
                     (length (trip ?st) + routes_closed (take 2 split_paths)) !
                     legs_since_open (take 2 split_paths)) =
                  shape (options st1) ! nat (last_match_idx (last (snd (split_paths ! 2))))"
        "shape_index (shape (options st1) !
           nat (last_match_idx (last (snd (split_paths ! 2))))) =
         Some (legs_since_open (take 2 split_paths) + 1)"
        "shape_index (shape (options st1) !
           nat (first_match_idx (hd (snd (split_paths ! 2))))) =
         Some (if first_match_idx (hd (snd (split_paths ! 2))) =
                  last_match_idx (last (snd (split_paths ! 2)))
               then legs_since_open (take 2 split_paths) + 1
               else legs_since_open (take 2 split_paths))"
        "\<forall>i. first_match_idx (hd (snd (split_paths ! 2))) \<le> i \<and>
             i \<le> last_match_idx (last (snd (split_paths ! 2))) \<longrightarrow>
             Location.route_index (shape (options st1) ! nat i) =
               Some (routes_closed (take 2 split_paths))"
    unfolding Let_def by auto
  from run run1 3(9) have st1: "st1 = fst ?B" by simp
  from facts(5) [rule_format, of 3] facts(5) [rule_format, of 4]
  have "Location.route_index (shape (options st1) ! 3) = Some 1"
       "Location.route_index (shape (options st1) ! 4) = Some 1"
    unfolding 3 by simp_all
  moreover from facts(1-4)
  have "leg_origin (trip (fst ?B) ! 1 ! 0) = shape (options st1) ! 3"
       "leg_destination (trip (fst ?B) ! 1 ! 0) = shape (options st1) ! 4"
       "shape_index (shape (options st1) ! 4) = Some 1"
       "shape_index (shape (options st1) ! 3) = Some 0"
    unfolding 3 by simp_all
  ultimately show ?thesis using len unfolding st1 by blast
qed

text \<open>
  C10. When \<open>build_route\<close> returns, standard output has grown by the output of each
  path in turn: the line \<open>Path:\<close>, the path's edge-cost entries one per line, the line
  \<open>EdgeSegments:\<close>, its segments one per line, and an empty line.
\<close>

theorem build_route_cout:
  assumes "build_route paths ms st = (st', Inr ())"
  shows "cout st' = cout st @ concat (map cout_path paths) \<and>
         (\<forall>path \<in> set paths.
            cout_path path =
              [cout_string ''Path:'', endl] @
              concat (map (\<lambda>p. [cout_PathInfo p, endl]) (fst path)) @
              [cout_string ''EdgeSegments:'', endl] @
              concat (map (\<lambda>s. [cout_EdgeSegment s, endl]) (snd path)) @
              [endl])"
proof -
  from assms obtain v' where
      "build_route_paths ms paths (st, build_route_vars_init) = Inr (st', v')"
    by (auto simp: build_route_def split: sum.splits)
  from build_route_paths_invariant [OF this, THEN conjunct2, THEN conjunct1] show ?thesis
    by (simp add: cout_path_def)
qed

theorem build_route_cout_witness:
  "cout (fst (build_route [merged_gap_path] merged_gap_matches
      (example_state Options_trace_route 2))) =
     [cout_string ''Path:'', endl, cout_PathInfo (example_edge 1), endl,
      cout_string ''EdgeSegments:'', endl,
      cout_EdgeSegment (example_segment 1 0 1 False), endl, endl]"
proof -
  let ?st = "example_state Options_trace_route 2"
  let ?B = "build_route [merged_gap_path] merged_gap_matches ?st"
  have 1: "?B = (fst ?B, Inr ())"
    by (simp add: build_route_defs merged_gap_path_def merged_gap_matches_def example_defs Let_def)
  have 2: "cout ?st = []"
    by (simp add: example_state_def)
  from build_route_cout [OF 1] 2 show ?thesis
    by (simp add: cout_path_def merged_gap_path_def)
qed

end
